theory Spec2Isabelle
  imports Complex_Main "HOL-Library.AList"
begin

section \<open>Python containers\<close>

text \<open>
  A Python \<^verbatim>\<open>set\<close> of strings is kept as a list; membership is \<open>x \<in> set xs\<close>.
  \<^verbatim>\<open>s.add(x)\<close>, \<^verbatim>\<open>s.discard(x)\<close> and \<^verbatim>\<open>s.update(xs)\<close> are the three
  mutators the services use. Iterating a set visits the list in its order; Python fixes
  no order, so what is proved of a loop over a set is proved for every order of the list.
\<close>

definition set_add :: "string \<Rightarrow> string list \<Rightarrow> string list" where
  "set_add x xs = (if x \<in> set xs then xs else xs @ [x])"

definition set_discard :: "string \<Rightarrow> string list \<Rightarrow> string list" where
  "set_discard x xs = removeAll x xs"

definition set_update :: "string list \<Rightarrow> string list \<Rightarrow> string list" where
  "set_update xs s = fold set_add xs s"

section \<open>services/websocket\_manager.py: the subscription registry\<close>

text \<open>
  \<^verbatim>\<open>client_subscriptions\<close> maps a client id to its set of symbols,
  \<^verbatim>\<open>symbol_subscribers\<close> a symbol to its set of client ids. Logging and
  \<^verbatim>\<open>socketio.emit\<close> do not touch the registry and are left out. Where the code
  indexes a dict (\<^verbatim>\<open>d[k]\<close>) the key is present: it was stored on the line before, or
  the function returned early when it was missing.
\<close>

record ws_manager =
  client_subscriptions :: "string \<rightharpoonup> string list"
  symbol_subscribers :: "string \<rightharpoonup> string list"
  connected_clients :: "string list"

definition add_subscriber :: "string \<Rightarrow> string \<Rightarrow> (string \<rightharpoonup> string list) \<Rightarrow> (string \<rightharpoonup> string list)" where
  "add_subscriber client_id symbol subs =
     (let subs1 = (if symbol \<notin> dom subs then subs(symbol \<mapsto> []) else subs)
      in subs1(symbol \<mapsto> set_add client_id (the (subs1 symbol))))"

definition handle_client_subscription :: "ws_manager \<Rightarrow> string \<Rightarrow> string list \<Rightarrow> ws_manager" where
  "handle_client_subscription m client_id symbols =
     (if client_id \<notin> set (connected_clients m) then m
      else
        let cs = (if client_id \<notin> dom (client_subscriptions m)
                  then (client_subscriptions m)(client_id \<mapsto> [])
                  else client_subscriptions m);
            mine = the (cs client_id);
            new_symbols = filter (\<lambda>s. s \<notin> set mine) (remdups symbols);
            cs' = cs(client_id \<mapsto> set_update symbols mine);
            ss' = fold (add_subscriber client_id) new_symbols (symbol_subscribers m)
        in m\<lparr>client_subscriptions := cs', symbol_subscribers := ss'\<rparr>)"

definition remove_subscriber :: "string \<Rightarrow> string \<Rightarrow> (string \<rightharpoonup> string list) \<Rightarrow> (string \<rightharpoonup> string list)" where
  "remove_subscriber client_id symbol subs =
     (case subs symbol of
        None \<Rightarrow> subs
      | Some cl \<Rightarrow>
          (let cl' = set_discard client_id cl
           in if cl' = [] then subs(symbol := None) else subs(symbol \<mapsto> cl')))"

definition unsubscribe_step :: "string \<Rightarrow> string \<Rightarrow> ws_manager \<Rightarrow> ws_manager" where
  "unsubscribe_step client_id symbol m =
     m\<lparr>client_subscriptions :=
          (client_subscriptions m)(client_id \<mapsto> set_discard symbol (the (client_subscriptions m client_id))),
        symbol_subscribers := remove_subscriber client_id symbol (symbol_subscribers m)\<rparr>"

definition unsubscribe_client_from_symbols :: "ws_manager \<Rightarrow> string \<Rightarrow> string list \<Rightarrow> ws_manager" where
  "unsubscribe_client_from_symbols m client_id symbols =
     (if client_id \<notin> dom (client_subscriptions m) then m
      else fold (unsubscribe_step client_id) symbols m)"

definition cleanup_client :: "ws_manager \<Rightarrow> string \<Rightarrow> ws_manager" where
  "cleanup_client m client_id =
     (let m1 = m\<lparr>connected_clients := set_discard client_id (connected_clients m)\<rparr>
      in case client_subscriptions m1 client_id of
           None \<Rightarrow> m1
         | Some subscribed_symbols \<Rightarrow>
             m1\<lparr>symbol_subscribers :=
                   fold (remove_subscriber client_id) subscribed_symbols (symbol_subscribers m1),
                 client_subscriptions := (client_subscriptions m1)(client_id := None)\<rparr>)"

text \<open>The three registry events, and a run of them in any order.\<close>

datatype registry_event =
  Subscribe string "string list"
| Unsubscribe string "string list"
| Disconnect string

fun apply_event :: "registry_event \<Rightarrow> ws_manager \<Rightarrow> ws_manager" where
  "apply_event (Subscribe c syms) m = handle_client_subscription m c syms"
| "apply_event (Unsubscribe c syms) m = unsubscribe_client_from_symbols m c syms"
| "apply_event (Disconnect c) m = cleanup_client m c"

definition run_events :: "registry_event list \<Rightarrow> ws_manager \<Rightarrow> ws_manager" where
  "run_events evs m = fold apply_event evs m"

definition subscriptions_of :: "ws_manager \<Rightarrow> string \<Rightarrow> string set" where
  "subscriptions_of m c = (case client_subscriptions m c of None \<Rightarrow> {} | Some l \<Rightarrow> set l)"

definition subscribers_of :: "ws_manager \<Rightarrow> string \<Rightarrow> string set" where
  "subscribers_of m s = (case symbol_subscribers m s of None \<Rightarrow> {} | Some l \<Rightarrow> set l)"

definition registry_inv :: "ws_manager \<Rightarrow> bool" where
  "registry_inv m \<longleftrightarrow>
     (\<forall>c s. s \<in> subscriptions_of m c \<longleftrightarrow> c \<in> subscribers_of m s) \<and>
     (\<forall>s. symbol_subscribers m s \<noteq> Some [])"

text \<open>The members of the set stored under a key, an absent key read as the empty set.\<close>

definition members :: "(string \<rightharpoonup> string list) \<Rightarrow> string \<Rightarrow> string set" where
  "members d k = (case d k of None \<Rightarrow> {} | Some l \<Rightarrow> set l)"

text \<open>A small registry to run the events on: two connected clients, no subscription yet.\<close>

definition demo_registry :: ws_manager where
  "demo_registry = \<lparr>client_subscriptions = [''c1'' \<mapsto> [], ''c2'' \<mapsto> []],
     symbol_subscribers = Map.empty, connected_clients = [''c1'', ''c2'']\<rparr>"

definition demo_events :: "registry_event list" where
  "demo_events = [Subscribe ''c1'' [''R'', ''T''], Subscribe ''c2'' [''R''],
     Unsubscribe ''c1'' [''T''], Disconnect ''c2'']"

section \<open>services/monitoring\_service.py: CircuitBreaker\<close>

text \<open>
  Times are seconds on the rational line; \<^verbatim>\<open>datetime.now()\<close> is an argument of the
  operation that reads it. The wrapped operation acts on a world \<open>'w\<close> and either returns
  (\<open>Inr\<close>) or raises (\<open>Inl\<close>); a call that leaves the world as it was has not invoked
  it. \<^verbatim>\<open>expected_exception\<close> is the class test of the \<^verbatim>\<open>except\<close> clause.
\<close>

datatype breaker_state = Closed | Open | HalfOpen

record 'e circuit_breaker =
  failure_threshold :: int
  recovery_timeout :: int
  expected_exception :: "'e \<Rightarrow> bool"
  failure_count :: int
  last_failure_time :: "rat option"
  state :: breaker_state

datatype 'e call_error = CircuitOpen | Raised 'e

definition should_attempt_reset :: "'e circuit_breaker \<Rightarrow> rat \<Rightarrow> bool" where
  "should_attempt_reset cb now =
     (case last_failure_time cb of
        None \<Rightarrow> True
      | Some t \<Rightarrow> now - t \<ge> of_int (recovery_timeout cb))"

definition on_success :: "'e circuit_breaker \<Rightarrow> 'e circuit_breaker" where
  "on_success cb =
     (let cb1 = (if state cb = HalfOpen then cb\<lparr>state := Closed\<rparr> else cb)
      in cb1\<lparr>failure_count := 0\<rparr>)"

definition on_failure :: "'e circuit_breaker \<Rightarrow> rat \<Rightarrow> 'e circuit_breaker" where
  "on_failure cb now =
     (let cb1 = cb\<lparr>failure_count := failure_count cb + 1, last_failure_time := Some now\<rparr>
      in if failure_count cb1 \<ge> failure_threshold cb1 then cb1\<lparr>state := Open\<rparr> else cb1)"

text \<open>
  \<open>call cb func w now now'\<close>: \<open>now\<close> is the clock when the gate is checked, \<open>now'\<close> the
  clock when a failure is recorded.
\<close>

definition call :: "'e circuit_breaker \<Rightarrow> ('w \<Rightarrow> ('e + 'a) \<times> 'w) \<Rightarrow> 'w \<Rightarrow> rat \<Rightarrow> rat
    \<Rightarrow> ('e call_error + 'a) \<times> 'e circuit_breaker \<times> 'w" where
  "call cb func w now now' =
     (if state cb = Open \<and> \<not> should_attempt_reset cb now then (Inl CircuitOpen, cb, w)
      else
        let cb1 = (if state cb = Open then cb\<lparr>state := HalfOpen\<rparr> else cb)
        in case func w of
             (Inr result, w') \<Rightarrow> (Inr result, on_success cb1, w')
           | (Inl e, w') \<Rightarrow>
               if expected_exception cb1 e then (Inl (Raised e), on_failure cb1 now', w')
               else (Inl (Raised e), cb1, w'))"

text \<open>A run of calls, each with its operation and its two clock readings; results are dropped.\<close>

definition call_step :: "('w \<Rightarrow> ('e + 'a) \<times> 'w) \<times> rat \<times> rat \<Rightarrow> 'e circuit_breaker \<times> 'w
    \<Rightarrow> 'e circuit_breaker \<times> 'w" where
  "call_step c s = (case c of (func, now, now') \<Rightarrow> snd (call (fst s) func (snd s) now now'))"

definition run_calls :: "(('w \<Rightarrow> ('e + 'a) \<times> 'w) \<times> rat \<times> rat) list \<Rightarrow> 'e circuit_breaker \<times> 'w
    \<Rightarrow> 'e circuit_breaker \<times> 'w" where
  "run_calls calls s = fold call_step calls s"

text \<open>An operation that raises an exception the breaker counts, whatever the world.\<close>

definition always_fails :: "'e circuit_breaker \<Rightarrow> ('w \<Rightarrow> ('e + 'a) \<times> 'w) \<Rightarrow> bool" where
  "always_fails cb func \<longleftrightarrow> (\<forall>w. \<exists>e. fst (func w) = Inl e \<and> expected_exception cb e)"

text \<open>
  A breaker with threshold 2 and a 60 second recovery timeout, an operation that always
  raises and one that returns; the world counts the invocations.
\<close>

definition demo_breaker :: "string circuit_breaker" where
  "demo_breaker = \<lparr>failure_threshold = 2, recovery_timeout = 60, expected_exception = (\<lambda>e. True),
     failure_count = 0, last_failure_time = None, state = Closed\<rparr>"

definition failing_op :: "nat \<Rightarrow> (string + int) \<times> nat" where
  "failing_op w = (Inl ''timeout'', Suc w)"

definition working_op :: "nat \<Rightarrow> (string + int) \<times> nat" where
  "working_op w = (Inr 7, Suc w)"

definition demo_calls :: "((nat \<Rightarrow> (string + int) \<times> nat) \<times> rat \<times> rat) list" where
  "demo_calls = [(failing_op, 0, 1), (failing_op, 2, 3)]"

definition opened_breaker :: "string circuit_breaker" where
  "opened_breaker = \<lparr>failure_threshold = 2, recovery_timeout = 60, expected_exception = (\<lambda>e. True),
     failure_count = 2, last_failure_time = Some 3, state = Open\<rparr>"

section \<open>models/stock\_quote.py and services/compression\_service.py: the codec\<close>

text \<open>
  A field value is \<^verbatim>\<open>None\<close>, an \<^verbatim>\<open>int\<close>, a \<^verbatim>\<open>float\<close> or a \<^verbatim>\<open>str\<close>. A float is
  modelled by the rational number it denotes, so NaN and the infinities are outside the
  model. A \<^verbatim>\<open>dict\<close> is an association list in insertion order; \<^verbatim>\<open>d[k] = v\<close>
  overwrites in place or appends, which is \<open>AList.update\<close>. A Python dict has distinct keys.
\<close>

datatype pyval = VNone | VInt int | VFloat rat | VStr string

type_synonym pydict = "(string \<times> pyval) list"

definition dict_get :: "pydict \<Rightarrow> string \<Rightarrow> pyval" where
  "dict_get d k = (case map_of d k of None \<Rightarrow> VNone | Some v \<Rightarrow> v)"

definition dict_get_default :: "pydict \<Rightarrow> string \<Rightarrow> pyval \<Rightarrow> pyval" where
  "dict_get_default d k dflt = (case map_of d k of None \<Rightarrow> dflt | Some v \<Rightarrow> v)"

definition dict_set :: "pydict \<Rightarrow> string \<Rightarrow> pyval \<Rightarrow> pydict" where
  "dict_set d k v = AList.update k v d"

text \<open>Python's \<^verbatim>\<open>==\<close> on values: an int and a float are equal when they denote the same number.\<close>

fun py_eq :: "pyval \<Rightarrow> pyval \<Rightarrow> bool" where
  "py_eq (VInt i) (VFloat r) = (of_int i = r)"
| "py_eq (VFloat r) (VInt i) = (r = of_int i)"
| "py_eq a b = (a = b)"

text \<open>Python's \<^verbatim>\<open>==\<close> on dicts: the same keys, with equal values; order is ignored.\<close>

definition dict_eq :: "pydict \<Rightarrow> pydict \<Rightarrow> bool" where
  "dict_eq a b \<longleftrightarrow>
     (\<forall>k \<in> set (map fst a) \<union> set (map fst b).
        case (map_of a k, map_of b k) of (Some x, Some y) \<Rightarrow> py_eq x y | _ \<Rightarrow> False)"

text \<open>
  \<^verbatim>\<open>round(x, n)\<close>: the nearest multiple of \<open>10\<^sup>-\<^sup>n\<close>, a tie going to the even one.
\<close>

definition py_round :: "rat \<Rightarrow> nat \<Rightarrow> rat" where
  "py_round x n =
     (let s = x * 10 ^ n; f = \<lfloor>s\<rfloor>; d = s - of_int f;
          r = (if d < 1 / 2 then f else if d > 1 / 2 then f + 1 else if even f then f else f + 1)
      in of_int r / 10 ^ n)"

text \<open>
  The fields of \<^verbatim>\<open>StockQuote\<close> carry the prefix \<open>sq_\<close>; the timestamp is kept as its
  \<^verbatim>\<open>isoformat()\<close> string.
\<close>

record StockQuote =
  sq_symbol :: string
  sq_company_name :: string
  sq_current_price :: rat
  sq_change :: rat
  sq_percent_change :: rat
  sq_volume :: int
  sq_timestamp :: string
  sq_bid_price :: "rat option"
  sq_ask_price :: "rat option"
  sq_high :: "rat option"
  sq_low :: "rat option"

definition optional_float :: "rat option \<Rightarrow> pyval" where
  "optional_float x = (case x of None \<Rightarrow> VNone | Some r \<Rightarrow> VFloat r)"

definition to_dict :: "StockQuote \<Rightarrow> pydict" where
  "to_dict q =
     [(''symbol'', VStr (sq_symbol q)),
      (''company_name'', VStr (sq_company_name q)),
      (''current_price'', VFloat (sq_current_price q)),
      (''change'', VFloat (sq_change q)),
      (''percent_change'', VFloat (sq_percent_change q)),
      (''volume'', VInt (sq_volume q)),
      (''timestamp'', VStr (sq_timestamp q)),
      (''bid_price'', optional_float (sq_bid_price q)),
      (''ask_price'', optional_float (sq_ask_price q)),
      (''high'', optional_float (sq_high q)),
      (''low'', optional_float (sq_low q))]"

definition field_mapping :: "(string \<times> string) list" where
  "field_mapping =
     [(''symbol'', ''s''), (''company_name'', ''cn''), (''current_price'', ''cp''),
      (''change'', ''c''), (''percent_change'', ''pc''), (''volume'', ''v''),
      (''timestamp'', ''t''), (''bid_price'', ''bp''), (''ask_price'', ''ap''),
      (''high'', ''h''), (''low'', ''l'')]"

definition reverse_mapping :: "(string \<times> string) list" where
  "reverse_mapping =
     [(''s'', ''symbol''), (''cn'', ''company_name''), (''cp'', ''current_price''),
      (''c'', ''change''), (''pc'', ''percent_change''), (''v'', ''volume''),
      (''t'', ''timestamp''), (''bp'', ''bid_price''), (''ap'', ''ask_price''),
      (''h'', ''high''), (''l'', ''low'')]"

text \<open>\<^verbatim>\<open>mapping.get(key, key)\<close>\<close>

definition get_or_key :: "(string \<times> string) list \<Rightarrow> string \<Rightarrow> string" where
  "get_or_key mapping key = (case map_of mapping key of None \<Rightarrow> key | Some k \<Rightarrow> k)"

definition optimize_step :: "string \<times> pyval \<Rightarrow> pydict \<Rightarrow> pydict" where
  "optimize_step kv optimized =
     (case kv of (key, value) \<Rightarrow>
        let short_key = get_or_key field_mapping key
        in case value of
             VFloat x \<Rightarrow>
               if key \<in> set [''current_price'', ''change'', ''bid_price'', ''ask_price'', ''high'', ''low'']
               then dict_set optimized short_key (VFloat (py_round x 2))
               else if key = ''percent_change''
               then dict_set optimized short_key (VFloat (py_round x 3))
               else dict_set optimized short_key value
           | VNone \<Rightarrow> optimized
           | _ \<Rightarrow> dict_set optimized short_key value)"

definition optimize_data_structure :: "pydict \<Rightarrow> pydict" where
  "optimize_data_structure data = fold optimize_step data []"

definition restore_step :: "string \<times> pyval \<Rightarrow> pydict \<Rightarrow> pydict" where
  "restore_step kv restored =
     (case kv of (key, value) \<Rightarrow>
        let original_key = get_or_key reverse_mapping key
        in dict_set restored original_key value)"

definition restore_data_structure :: "pydict \<Rightarrow> pydict" where
  "restore_data_structure optimized_data = fold restore_step optimized_data []"

text \<open>
  What \<^verbatim>\<open>_optimize_data_structure\<close> stores for a field: the value itself, rounded
  when it is a float of a price field (2 places) or of \<^verbatim>\<open>percent_change\<close> (3 places).
\<close>

definition stored_value :: "string \<Rightarrow> pyval \<Rightarrow> pyval" where
  "stored_value key value =
     (case value of
        VFloat x \<Rightarrow>
          if key \<in> set [''current_price'', ''change'', ''bid_price'', ''ask_price'', ''high'', ''low'']
          then VFloat (py_round x 2)
          else if key = ''percent_change'' then VFloat (py_round x 3) else value
      | _ \<Rightarrow> value)"

definition short_aliases :: "string set" where
  "short_aliases = set (map snd field_mapping)"

text \<open>
  The service's state: the per-symbol baseline and the counters. An update is the dict
  the service returns; \<open>upd_changes\<close> and \<open>upd_data\<close> are \<open>None\<close> when the dict
  has no such key. The data argument is a dict or a \<^verbatim>\<open>StockQuote\<close>.
\<close>

record compression_service =
  previous_data_cache :: "string \<rightharpoonup> pydict"
  total_compressions :: nat
  total_original_size :: nat
  total_compressed_size :: nat
  delta_updates :: nat
  full_updates :: nat

record update =
  upd_symbol :: string
  upd_type :: string
  upd_timestamp :: pyval
  upd_changes :: "pydict option"
  upd_data :: "pydict option"

datatype stock_data = DictData pydict | QuoteData StockQuote

fun as_dict :: "stock_data \<Rightarrow> pydict" where
  "as_dict (QuoteData q) = to_dict q"
| "as_dict (DictData d) = d"

definition delta_step :: "pydict \<Rightarrow> string \<times> pyval \<Rightarrow> update \<Rightarrow> update" where
  "delta_step previous_data kv delta =
     (case kv of (key, new_value) \<Rightarrow>
        if key = ''timestamp'' then delta\<lparr>upd_timestamp := new_value\<rparr>
        else
          let old_value = dict_get previous_data key
          in if \<not> py_eq old_value new_value
             then delta\<lparr>upd_changes := map_option (\<lambda>c. dict_set c key new_value) (upd_changes delta)\<rparr>
             else delta)"

text \<open>
  \<open>now\<close> and \<open>now'\<close> are the two readings of \<^verbatim>\<open>datetime.now().isoformat()\<close>, the
  defaults of the delta's and of the heartbeat's timestamp.
\<close>

definition create_delta_update :: "compression_service \<Rightarrow> string \<Rightarrow> stock_data \<Rightarrow> string \<Rightarrow> string
    \<Rightarrow> update \<times> compression_service" where
  "create_delta_update cs symbol new_data now now' =
     (let new_dict = as_dict new_data;
          previous_data = (case previous_data_cache cs symbol of None \<Rightarrow> [] | Some d \<Rightarrow> d);
          delta0 = \<lparr>upd_symbol = symbol, upd_type = ''delta'',
                    upd_timestamp = dict_get_default new_dict ''timestamp'' (VStr now),
                    upd_changes = Some [], upd_data = None\<rparr>;
          delta = fold (delta_step previous_data) new_dict delta0;
          cs1 = cs\<lparr>previous_data_cache := (previous_data_cache cs)(symbol \<mapsto> new_dict)\<rparr>
      in if upd_changes delta \<noteq> Some []
         then (delta, cs1\<lparr>delta_updates := delta_updates cs1 + 1\<rparr>)
         else (\<lparr>upd_symbol = symbol, upd_type = ''heartbeat'',
                 upd_timestamp = dict_get_default new_dict ''timestamp'' (VStr now'),
                 upd_changes = None, upd_data = None\<rparr>, cs1))"

definition create_full_update :: "compression_service \<Rightarrow> string \<Rightarrow> stock_data \<Rightarrow> string
    \<Rightarrow> update \<times> compression_service" where
  "create_full_update cs symbol data now =
     (let data_dict = as_dict data;
          full_update = \<lparr>upd_symbol = symbol, upd_type = ''full'',
                         upd_timestamp = dict_get_default data_dict ''timestamp'' (VStr now),
                         upd_changes = None, upd_data = Some data_dict\<rparr>;
          cs1 = cs\<lparr>previous_data_cache := (previous_data_cache cs)(symbol \<mapsto> data_dict)\<rparr>
      in (full_update, cs1\<lparr>full_updates := full_updates cs1 + 1\<rparr>))"

text \<open>
  The spec's reading of "Q equals B on every field other than timestamp": on every key
  of either map, an absent field counting as null.
\<close>

definition equal_except_timestamp :: "pydict \<Rightarrow> pydict \<Rightarrow> bool" where
  "equal_except_timestamp Q B \<longleftrightarrow>
     (\<forall>k \<in> set (map fst Q) \<union> set (map fst B).
        k \<noteq> ''timestamp'' \<longrightarrow> py_eq (dict_get B k) (dict_get Q k))"

text \<open>What the code compares: the fields of the new map only.\<close>

definition new_fields_unchanged :: "pydict \<Rightarrow> pydict \<Rightarrow> bool" where
  "new_fields_unchanged Q B \<longleftrightarrow>
     (\<forall>(k, v) \<in> set Q. k \<noteq> ''timestamp'' \<longrightarrow> py_eq (dict_get B k) v)"

definition baseline :: "compression_service \<Rightarrow> string \<Rightarrow> pydict" where
  "baseline cs symbol = (case previous_data_cache cs symbol of None \<Rightarrow> [] | Some d \<Rightarrow> d)"

text \<open>
  Sample maps: a baseline with an optional bid price, a new map without it, and a new map
  with a changed price; a service holding the baseline for symbol 500325.
\<close>

definition baseline_fields :: pydict where
  "baseline_fields =
     [(''symbol'', VStr ''500325''), (''current_price'', VFloat (5003 / 2)),
      (''bid_price'', VFloat 2501), (''timestamp'', VStr ''2024-01-01T10:00:00'')]"

definition fields_without_bid :: pydict where
  "fields_without_bid =
     [(''symbol'', VStr ''500325''), (''current_price'', VFloat (5003 / 2)),
      (''timestamp'', VStr ''2024-01-01T10:00:05'')]"

definition fields_new_price :: pydict where
  "fields_new_price =
     [(''symbol'', VStr ''500325''), (''current_price'', VFloat (10011 / 4)),
      (''bid_price'', VFloat 2501), (''timestamp'', VStr ''2024-01-01T10:00:05'')]"

definition demo_service :: compression_service where
  "demo_service =
     \<lparr>previous_data_cache = [''500325'' \<mapsto> baseline_fields], total_compressions = 0,
      total_original_size = 0, total_compressed_size = 0, delta_updates = 0, full_updates = 0\<rparr>"


text \<open>Whether a field of the new map is reported as a change against the baseline.\<close>

definition changed :: "pydict \<Rightarrow> string \<times> pyval \<Rightarrow> bool" where
  "changed B kv \<longleftrightarrow> fst kv \<noteq> ''timestamp'' \<and> \<not> py_eq (dict_get B (fst kv)) (snd kv)"

text \<open>
  Sample quotes: one with no optional field set, one with a price of nine decimal places,
  and one whose floats are all at the codec's precision.
\<close>

definition quote_without_bid :: StockQuote where
  "quote_without_bid =
     \<lparr>sq_symbol = ''500325'', sq_company_name = ''Reliance Industries Limited'',
      sq_current_price = 5003 / 2, sq_change = 3 / 2, sq_percent_change = 3 / 50,
      sq_volume = 1234567, sq_timestamp = ''2024-01-01T10:00:00'',
      sq_bid_price = None, sq_ask_price = None, sq_high = None, sq_low = None\<rparr>"

definition quote_long_price :: StockQuote where
  "quote_long_price =
     \<lparr>sq_symbol = ''TEST'', sq_company_name = ''Test Company'',
      sq_current_price = 1234123456789 / 1000000000, sq_change = 3 / 2, sq_percent_change = 3 / 50,
      sq_volume = 1234567, sq_timestamp = ''2024-01-01T10:00:00'',
      sq_bid_price = Some 2501, sq_ask_price = Some 2502, sq_high = Some 2505, sq_low = Some 2498\<rparr>"

definition quote_rounded :: StockQuote where
  "quote_rounded =
     \<lparr>sq_symbol = ''500325'', sq_company_name = ''Reliance Industries Limited'',
      sq_current_price = 5003 / 2, sq_change = 3 / 2, sq_percent_change = 3 / 50,
      sq_volume = 1234567, sq_timestamp = ''2024-01-01T10:00:00'',
      sq_bid_price = Some 2501, sq_ask_price = Some 2502, sq_high = Some 2505, sq_low = Some 2498\<rparr>"

section \<open>services/batch\_data\_fetcher.py: BatchDataFetcher\<close>

text \<open>
  Everything outside the fetcher is a world \<open>'w\<close> reached through the operations of
  \<open>env\<close>: \<^verbatim>\<open>_fetch_single_quote\<close> (it catches the errors of the upstream call and of
  the conversion itself, and returns a quote or \<^verbatim>\<open>None\<close>; the third outcome is for an
  exception that escapes it), the clock, \<^verbatim>\<open>random.random()\<close>, \<^verbatim>\<open>time.sleep\<close> and
  the logger's \<^verbatim>\<open>error\<close>. A world that is handed back unchanged has seen no fetch and
  no callback. \<^verbatim>\<open>time.sleep\<close> only delays: its delay is not negative as long as
  \<^verbatim>\<open>base_retry_delay\<close> and \<^verbatim>\<open>max_retry_delay\<close> are not. Debug and info logging
  is left out. A callback is a named function on the world that returns, or raises an
  \<^verbatim>\<open>Exception\<close> with a message (\<open>Some\<close>); it does not mutate the map it is given.
\<close>

datatype fetch_outcome = Fetched StockQuote | NoQuote | FetchRaised string

record 'w env =
  fetch_single_quote :: "string \<Rightarrow> 'w \<Rightarrow> fetch_outcome \<times> 'w"
  clock :: "'w \<Rightarrow> rat"
  random :: "'w \<Rightarrow> rat \<times> 'w"
  sleep :: "rat \<Rightarrow> 'w \<Rightarrow> 'w"
  log_error :: "string \<Rightarrow> 'w \<Rightarrow> 'w"

type_synonym quotes = "(string \<times> StockQuote) list"

type_synonym 'w callback = "quotes \<Rightarrow> 'w \<Rightarrow> string option \<times> 'w"

datatype SymbolPriority = HIGH | MEDIUM | LOW

text \<open>The fields of \<^verbatim>\<open>SymbolConfig\<close> carry the prefix \<open>cfg_\<close>.\<close>

record SymbolConfig =
  cfg_symbol :: string
  cfg_priority :: SymbolPriority
  cfg_last_updated :: "rat option"
  cfg_update_count :: nat
  cfg_error_count :: nat
  cfg_last_error :: "string option"

record BatchResult =
  successful_quotes :: quotes
  failed_symbols :: "(string \<times> string) list"
  fetch_time :: rat
  batch_duration :: rat

record 'w fetcher =
  max_batch_size :: int
  max_retries :: int
  base_retry_delay :: rat
  max_retry_delay :: rat
  watched_symbols :: "string \<rightharpoonup> SymbolConfig"
  update_callbacks :: "'w callback list"
  circuit_breaker_failures :: int
  circuit_breaker_threshold :: int
  circuit_breaker_reset_time :: "rat option"
  circuit_breaker_timeout :: int
  total_requests :: nat
  successful_requests :: nat
  failed_requests :: nat
  last_batch_time :: "rat option"

definition add_update_callback :: "'w fetcher \<Rightarrow> 'w callback \<Rightarrow> 'w fetcher" where
  "add_update_callback f callback = f\<lparr>update_callbacks := update_callbacks f @ [callback]\<rparr>"

definition is_circuit_breaker_open :: "'w fetcher \<Rightarrow> rat \<Rightarrow> bool \<times> 'w fetcher" where
  "is_circuit_breaker_open f now =
     (if circuit_breaker_failures f < circuit_breaker_threshold f then (False, f)
      else case circuit_breaker_reset_time f of
             None \<Rightarrow>
               (True, f\<lparr>circuit_breaker_reset_time := Some (now + of_int (circuit_breaker_timeout f))\<rparr>)
           | Some reset_time \<Rightarrow>
               if now \<ge> reset_time
               then (False, f\<lparr>circuit_breaker_failures := 0, circuit_breaker_reset_time := None\<rparr>)
               else (True, f))"

definition calculate_retry_delay :: "'w fetcher \<Rightarrow> nat \<Rightarrow> rat \<Rightarrow> rat" where
  "calculate_retry_delay f attempt r =
     (let delay = base_retry_delay f * 2 ^ attempt;
          jitter = delay * (1 / 4) * (2 * r - 1);
          delay = delay + jitter
      in min delay (max_retry_delay f))"

text \<open>The wait before a retry, skipped after the last attempt.\<close>

definition wait_before_retry :: "'w env \<Rightarrow> 'w fetcher \<Rightarrow> nat \<Rightarrow> 'w \<Rightarrow> 'w" where
  "wait_before_retry env f attempt w =
     (if int attempt < max_retries f
      then (case random env w of (r, w') \<Rightarrow> sleep env (calculate_retry_delay f attempt r) w')
      else w)"

text \<open>
  The loop \<^verbatim>\<open>for attempt in range(self.max_retries + 1)\<close> for one symbol. It returns
  \<^verbatim>\<open>success\<close> and \<^verbatim>\<open>last_error\<close> with the result, the fetcher and the world.
\<close>

fun retry_loop :: "'w env \<Rightarrow> string \<Rightarrow> nat list \<Rightarrow> string option \<Rightarrow> BatchResult \<times> 'w fetcher \<times> 'w
    \<Rightarrow> (bool \<times> string option) \<times> BatchResult \<times> 'w fetcher \<times> 'w" where
  "retry_loop env symbol [] last_error (result, f, w) = ((False, last_error), result, f, w)"
| "retry_loop env symbol (attempt # attempts) last_error (result, f, w) =
     (case fetch_single_quote env symbol w of
        (Fetched quote, w1) \<Rightarrow>
          (let result1 = result\<lparr>successful_quotes := AList.update symbol quote (successful_quotes result)\<rparr>;
               f1 = (case watched_symbols f symbol of
                       None \<Rightarrow> f
                     | Some config \<Rightarrow>
                         f\<lparr>watched_symbols := (watched_symbols f)(symbol \<mapsto>
                              config\<lparr>cfg_last_updated := Some (clock env w1),
                                     cfg_update_count := cfg_update_count config + 1,
                                     cfg_error_count := 0,
                                     cfg_last_error := None\<rparr>)\<rparr>)
           in ((True, last_error), result1, f1, w1))
      | (NoQuote, w1) \<Rightarrow>
          retry_loop env symbol attempts (Some ''No data returned from API'')
            (result, f, wait_before_retry env f attempt w1)
      | (FetchRaised e, w1) \<Rightarrow>
          retry_loop env symbol attempts (Some e) (result, f, wait_before_retry env f attempt w1))"

text \<open>\<^verbatim>\<open>last_error or "Unknown error"\<close>: the empty string is falsy as well.\<close>

definition or_unknown_error :: "string option \<Rightarrow> string" where
  "or_unknown_error last_error =
     (case last_error of None \<Rightarrow> ''Unknown error'' | Some e \<Rightarrow> if e = [] then ''Unknown error'' else e)"

text \<open>The body of \<^verbatim>\<open>for symbol in symbols\<close>.\<close>

definition fetch_symbol :: "'w env \<Rightarrow> string \<Rightarrow> BatchResult \<times> 'w fetcher \<times> 'w \<Rightarrow> BatchResult \<times> 'w fetcher \<times> 'w" where
  "fetch_symbol env symbol s =
     (case retry_loop env symbol [0 ..< nat (max_retries (fst (snd s)) + 1)] None s of
        ((success, last_error), result, f, w) \<Rightarrow>
          if \<not> success then
            (let result1 = result\<lparr>failed_symbols :=
                             AList.update symbol (or_unknown_error last_error) (failed_symbols result)\<rparr>;
                 f1 = f\<lparr>circuit_breaker_failures := circuit_breaker_failures f + 1\<rparr>;
                 f2 = (case watched_symbols f1 symbol of
                         None \<Rightarrow> f1
                       | Some config \<Rightarrow>
                           f1\<lparr>watched_symbols := (watched_symbols f1)(symbol \<mapsto>
                                 config\<lparr>cfg_error_count := cfg_error_count config + 1,
                                        cfg_last_error := last_error\<rparr>)\<rparr>)
             in (result1, f2, w))
          else (result, f, w))"

text \<open>\<^verbatim>\<open>xs[:n]\<close>: a negative \<open>n\<close> counts from the end.\<close>

definition slice_to :: "'a list \<Rightarrow> int \<Rightarrow> 'a list" where
  "slice_to xs n = (if 0 \<le> n then take (nat n) xs else take (length xs - nat (- n)) xs)"

text \<open>The \<^verbatim>\<open>try\<close>/\<^verbatim>\<open>except Exception\<close> around one callback, and the loop over the callbacks.\<close>

definition run_callback :: "'w env \<Rightarrow> quotes \<Rightarrow> 'w callback \<Rightarrow> 'w \<Rightarrow> 'w" where
  "run_callback env qs callback w =
     (case callback qs w of
        (None, w') \<Rightarrow> w'
      | (Some e, w') \<Rightarrow> log_error env e w')"

definition notify_callbacks :: "'w env \<Rightarrow> 'w callback list \<Rightarrow> quotes \<Rightarrow> 'w \<Rightarrow> 'w" where
  "notify_callbacks env callbacks qs w = fold (run_callback env qs) callbacks w"

definition circuit_open_message :: string where
  "circuit_open_message = ''Circuit breaker is open, skipping batch fetch''"

text \<open>
  \<^verbatim>\<open>fetch_batch_quotes\<close> up to the performance counters (\<open>fetch_all\<close>), and whole.
  The first component of \<open>fetch_all\<close> tells whether the breaker let the batch through.
\<close>

definition fetch_all :: "'w env \<Rightarrow> 'w fetcher \<Rightarrow> string list \<Rightarrow> 'w \<Rightarrow> bool \<times> BatchResult \<times> 'w fetcher \<times> 'w" where
  "fetch_all env f symbols w =
     (let start_time = clock env w;
          result = \<lparr>successful_quotes = [], failed_symbols = [], fetch_time = clock env w,
                    batch_duration = 0\<rparr>
      in case is_circuit_breaker_open f (clock env w) of
           (True, f1) \<Rightarrow>
             (False,
              result\<lparr>failed_symbols := fold (\<lambda>symbol d. AList.update symbol circuit_open_message d) symbols []\<rparr>,
              f1, w)
         | (False, f1) \<Rightarrow>
             (let symbols1 = (if int (length symbols) > max_batch_size f1
                              then slice_to symbols (max_batch_size f1) else symbols)
              in case fold (fetch_symbol env) symbols1 (result, f1, w) of
                   (result1, f2, w1) \<Rightarrow>
                     (let f3 = f2\<lparr>total_requests := total_requests f2 + 1\<rparr>;
                          f4 = (if successful_quotes result1 \<noteq> []
                                then f3\<lparr>successful_requests := successful_requests f3 + 1\<rparr> else f3);
                          f5 = (if failed_symbols result1 \<noteq> []
                                then f4\<lparr>failed_requests := failed_requests f4 + 1\<rparr> else f4);
                          result2 = result1\<lparr>batch_duration := clock env w1 - start_time\<rparr>;
                          f6 = f5\<lparr>last_batch_time := Some (fetch_time result2)\<rparr>
                      in (True, result2, f6, w1))))"

definition fetch_batch_quotes :: "'w env \<Rightarrow> 'w fetcher \<Rightarrow> string list \<Rightarrow> 'w \<Rightarrow> BatchResult \<times> 'w fetcher \<times> 'w" where
  "fetch_batch_quotes env f symbols w =
     (case fetch_all env f symbols w of
        (False, result, f1, w1) \<Rightarrow> (result, f1, w1)
      | (True, result, f1, w1) \<Rightarrow>
          if successful_quotes result \<noteq> [] \<and> update_callbacks f1 \<noteq> []
          then (result, f1, notify_callbacks env (update_callbacks f1) (successful_quotes result) w1)
          else (result, f1, w1))"

text \<open>The keys of a dict.\<close>

definition dict_keys :: "('k \<times> 'v) list \<Rightarrow> 'k set" where
  "dict_keys d = fst ` set d"

text \<open>
  A world that records what happens to it: every fetch attempt, every callback invocation
  with the keys of the map it was given, every logged error. The upstream knows one symbol.
  The fetcher has a batch limit of 2 and two callbacks, the first of which raises.
\<close>

record demo_world =
  fetched :: "string list"
  invoked :: "(string \<times> string list) list"
  errors :: "string list"
  time_now :: rat

definition demo_env :: "demo_world env" where
  "demo_env =
     \<lparr>fetch_single_quote = (\<lambda>symbol w.
         (if symbol = ''500325'' then Fetched quote_rounded else NoQuote,
          w\<lparr>fetched := fetched w @ [symbol]\<rparr>)),
      clock = time_now,
      random = (\<lambda>w. (1 / 2, w)),
      sleep = (\<lambda>delay w. w\<lparr>time_now := time_now w + delay\<rparr>),
      log_error = (\<lambda>e w. w\<lparr>errors := errors w @ [e]\<rparr>)\<rparr>"

definition raising_callback :: "demo_world callback" where
  "raising_callback qs w = (Some ''cache is down'', w\<lparr>invoked := invoked w @ [(''cache'', map fst qs)]\<rparr>)"

definition returning_callback :: "demo_world callback" where
  "returning_callback qs w = (None, w\<lparr>invoked := invoked w @ [(''broadcast'', map fst qs)]\<rparr>)"

definition demo_fetcher :: "demo_world fetcher" where
  "demo_fetcher =
     \<lparr>max_batch_size = 2, max_retries = 1, base_retry_delay = 1, max_retry_delay = 60,
      watched_symbols = Map.empty, update_callbacks = [raising_callback, returning_callback],
      circuit_breaker_failures = 0, circuit_breaker_threshold = 5,
      circuit_breaker_reset_time = None, circuit_breaker_timeout = 300,
      total_requests = 0, successful_requests = 0, failed_requests = 0, last_batch_time = None\<rparr>"

definition tripped_fetcher :: "demo_world fetcher" where
  "tripped_fetcher = demo_fetcher\<lparr>circuit_breaker_failures := 5\<rparr>"

definition quiet_world :: demo_world where
  "quiet_world = \<lparr>fetched = [], invoked = [], errors = [], time_now = 0\<rparr>"

section \<open>services/cache\_integration\_service.py: CacheIntegrationService\<close>

text \<open>
  \<^verbatim>\<open>cache/redis_manager.py\<close> is not among the sources. The two methods of the cache
  manager that \<^verbatim>\<open>get_stock_data\<close> calls are parameters: each acts on the world and
  returns (\<open>Inr\<close>) or raises (\<open>Inl\<close>, with the message). \<^verbatim>\<open>refresh_stock_data\<close>
  returns a success flag, as its callers read it. The counters \<^verbatim>\<open>updates_processed\<close> and
  \<^verbatim>\<open>broadcasts_sent\<close> are changed by the callbacks only and belong to the world.
\<close>

record 'w cache_manager =
  cache_get_stock_data :: "string \<Rightarrow> 'w \<Rightarrow> (string + StockQuote option) \<times> 'w"
  refresh_stock_data :: "string \<Rightarrow> StockQuote \<Rightarrow> bool \<Rightarrow> 'w \<Rightarrow> (string + bool) \<times> 'w"

record 'w cache_integration_service =
  batch_fetcher :: "'w fetcher"
  cache_hits :: nat
  cache_misses :: nat

definition get_stock_data :: "'w env \<Rightarrow> 'w cache_manager \<Rightarrow> 'w cache_integration_service \<Rightarrow> string \<Rightarrow> bool \<Rightarrow> 'w
    \<Rightarrow> (string + StockQuote option) \<times> 'w cache_integration_service \<times> 'w" where
  "get_stock_data env cm svc symbol fetch_if_missing w =
     (case cache_get_stock_data cm symbol w of
        (Inl e, w1) \<Rightarrow> (Inl e, svc, w1)
      | (Inr (Some stock_quote), w1) \<Rightarrow> (Inr (Some stock_quote), svc\<lparr>cache_hits := cache_hits svc + 1\<rparr>, w1)
      | (Inr None, w1) \<Rightarrow>
          (let svc1 = svc\<lparr>cache_misses := cache_misses svc + 1\<rparr>
           in if fetch_if_missing then
                (case fetch_batch_quotes env (batch_fetcher svc1) [symbol] w1 of
                   (batch_result, f', w2) \<Rightarrow>
                     (let svc2 = svc1\<lparr>batch_fetcher := f'\<rparr>
                      in case map_of (successful_quotes batch_result) symbol of
                           Some stock_quote \<Rightarrow>
                             (case refresh_stock_data cm symbol stock_quote True w2 of
                                (Inl e, w3) \<Rightarrow> (Inl e, svc2, w3)
                              | (Inr success, w3) \<Rightarrow> (Inr (Some stock_quote), svc2, w3))
                         | None \<Rightarrow> (Inr None, svc2, w2)))
              else (Inr None, svc1, w1)))"

text \<open>
  An empty cache whose write reports failure by its return value, and one whose write
  raises; a service on the sample fetcher.
\<close>

definition refusing_cache :: "demo_world cache_manager" where
  "refusing_cache =
     \<lparr>cache_get_stock_data = (\<lambda>symbol w. (Inr None, w)),
      refresh_stock_data = (\<lambda>symbol quote publish w. (Inr False, w))\<rparr>"

definition broken_cache :: "demo_world cache_manager" where
  "broken_cache =
     \<lparr>cache_get_stock_data = (\<lambda>symbol w. (Inr None, w)),
      refresh_stock_data = (\<lambda>symbol quote publish w. (Inl ''Connection refused'', w))\<rparr>"

definition demo_integration :: "demo_world cache_integration_service" where
  "demo_integration = \<lparr>batch_fetcher = demo_fetcher, cache_hits = 0, cache_misses = 0\<rparr>"

section \<open>services/optimized\_websocket\_service.py: OptimizedWebSocketService\<close>

text \<open>
  The capabilities a client declared; a client that declared none has no entry and every
  \<^verbatim>\<open>client_caps.get(..., False)\<close> reads \<open>False\<close>. The fields of \<^verbatim>\<open>batch_config\<close>
  carry the prefix \<open>bc_\<close>.
\<close>

record capabilities =
  supports_compression :: bool
  supports_delta_updates :: bool
  supports_batch_updates :: bool
  max_message_size :: int
  preferred_compression :: string

record batch_config =
  bc_max_batch_size :: int
  bc_batch_timeout_ms :: int
  bc_enable_compression :: bool
  bc_compression_threshold :: int

text \<open>
  The messages handed to \<^verbatim>\<open>socketio.emit\<close>, without their own timestamps: a single
  update as it is, a single update packed, a batch as it is, a batch packed (with its count).
  \<open>emitted\<close> is the list of the emits so far, each with its event name and its room, the
  client id; \<^verbatim>\<open>emit\<close> itself is taken not to raise.
\<close>

datatype message =
  StockUpdateOptimized update
| StockUpdateCompressed string
| BatchUpdate "update list"
| BatchUpdateCompressed string nat

datatype payload = UpdatePayload update | BatchPayload "update list"

text \<open>
  Serialisation is done by msgpack, gzip, json and base64. It is a parameter:
  \<open>message_size\<close> is the length of \<^verbatim>\<open>json.dumps(message)\<close> (\<open>None\<close> when it raises),
  \<open>pack\<close> the packed, base64-encoded payload with the length of its JSON form (\<open>None\<close>
  when packing raises), \<open>fallback\<close> the JSON bytes \<^verbatim>\<open>compress_stock_data\<close> falls back to.
\<close>

record wire =
  message_size :: "message \<Rightarrow> nat option"
  pack :: "payload \<Rightarrow> (string \<times> nat) option"
  fallback :: "payload \<Rightarrow> string"

definition compress_stock_data :: "wire \<Rightarrow> compression_service \<Rightarrow> payload \<Rightarrow> string \<times> compression_service" where
  "compress_stock_data wr cs p =
     (case pack wr p of
        Some (packed_data, original_size) \<Rightarrow>
          (packed_data,
           cs\<lparr>total_compressions := total_compressions cs + 1,
              total_original_size := total_original_size cs + original_size,
              total_compressed_size := total_compressed_size cs + length packed_data\<rparr>)
      | None \<Rightarrow> (fallback wr p, cs))"

definition compress_batch_updates :: "wire \<Rightarrow> compression_service \<Rightarrow> update list \<Rightarrow> string \<times> compression_service" where
  "compress_batch_updates wr cs updates = compress_stock_data wr cs (BatchPayload updates)"

record optimized_service =
  compression_service :: compression_service
  websocket_manager :: ws_manager
  client_capabilities :: "string \<rightharpoonup> capabilities"
  batch_config :: batch_config
  pending_batches :: "string \<rightharpoonup> update list"
  emitted :: "(string \<times> message \<times> string) list"

definition emit :: "string \<Rightarrow> message \<Rightarrow> string \<Rightarrow> optimized_service \<Rightarrow> optimized_service" where
  "emit event msg room svc = svc\<lparr>emitted := emitted svc @ [(event, msg, room)]\<rparr>"

text \<open>\<^verbatim>\<open>self.client_capabilities.get(client_id, {}).get(key, False)\<close>\<close>

definition capability :: "optimized_service \<Rightarrow> string \<Rightarrow> (capabilities \<Rightarrow> bool) \<Rightarrow> bool" where
  "capability svc client_id key =
     (case client_capabilities svc client_id of None \<Rightarrow> False | Some client_caps \<Rightarrow> key client_caps)"

definition flush_batch :: "wire \<Rightarrow> optimized_service \<Rightarrow> string \<Rightarrow> optimized_service" where
  "flush_batch wr svc client_id =
     (case pending_batches svc client_id of
        None \<Rightarrow> svc
      | Some batch_updates \<Rightarrow>
          if batch_updates = [] then svc
          else
            let svc1 = svc\<lparr>pending_batches := (pending_batches svc)(client_id \<mapsto> [])\<rparr>;
                supports_compression = capability svc1 client_id supports_compression
            in if supports_compression \<and> bc_enable_compression (batch_config svc1)
               then (case compress_batch_updates wr (compression_service svc1) batch_updates of
                       (encoded_batch, cs') \<Rightarrow>
                         emit ''batch_update'' (BatchUpdateCompressed encoded_batch (length batch_updates))
                           client_id (svc1\<lparr>compression_service := cs'\<rparr>))
               else emit ''batch_update'' (BatchUpdate batch_updates) client_id svc1)"

definition add_to_batch :: "wire \<Rightarrow> optimized_service \<Rightarrow> string \<Rightarrow> update \<Rightarrow> optimized_service" where
  "add_to_batch wr svc client_id update_data =
     (let pending = (if client_id \<notin> dom (pending_batches svc)
                     then (pending_batches svc)(client_id \<mapsto> []) else pending_batches svc);
          pending' = pending(client_id \<mapsto> the (pending client_id) @ [update_data]);
          svc1 = svc\<lparr>pending_batches := pending'\<rparr>
      in if int (length (the (pending' client_id))) \<ge> bc_max_batch_size (batch_config svc1)
         then flush_batch wr svc1 client_id else svc1)"

definition send_single_update :: "wire \<Rightarrow> optimized_service \<Rightarrow> string \<Rightarrow> update \<Rightarrow> bool \<Rightarrow> optimized_service" where
  "send_single_update wr svc client_id update_data use_compression =
     (let msg = StockUpdateOptimized update_data
      in if use_compression \<and> bc_enable_compression (batch_config svc)
         then (case message_size wr msg of
                 None \<Rightarrow> emit ''optimized_update'' msg client_id svc
               | Some n \<Rightarrow>
                   if int n > bc_compression_threshold (batch_config svc)
                   then (case compress_stock_data wr (compression_service svc) (UpdatePayload update_data) of
                           (encoded_data, cs') \<Rightarrow>
                             emit ''optimized_update'' (StockUpdateCompressed encoded_data) client_id
                               (svc\<lparr>compression_service := cs'\<rparr>))
                   else emit ''optimized_update'' msg client_id svc)
         else emit ''optimized_update'' msg client_id svc)"

definition send_update_to_client :: "wire \<Rightarrow> optimized_service \<Rightarrow> string \<Rightarrow> string \<Rightarrow> stock_data \<Rightarrow> bool
    \<Rightarrow> string \<Rightarrow> string \<Rightarrow> optimized_service" where
  "send_update_to_client wr svc client_id symbol stock_data force_full_update now now' =
     (let supports_delta = capability svc client_id supports_delta_updates;
          supports_compression = capability svc client_id supports_compression;
          supports_batch = capability svc client_id supports_batch_updates;
          created = (if supports_delta \<and> \<not> force_full_update
                     then create_delta_update (compression_service svc) symbol stock_data now now'
                     else create_full_update (compression_service svc) symbol stock_data now);
          update_data = fst created;
          svc1 = svc\<lparr>compression_service := snd created\<rparr>
      in if supports_batch then add_to_batch wr svc1 client_id update_data
         else send_single_update wr svc1 client_id update_data supports_compression)"


text \<open>The pending batch of a client, an absent entry read as the empty batch.\<close>

definition pending_of :: "optimized_service \<Rightarrow> string \<Rightarrow> update list" where
  "pending_of svc c = (case pending_batches svc c of None \<Rightarrow> [] | Some l \<Rightarrow> l)"



section \<open>Properties of the containers\<close>

lemma set_set_add [simp]: "set (set_add x xs) = insert x (set xs)"
  by (auto simp: set_add_def)

lemma set_set_discard [simp]: "set (set_discard x xs) = set xs - {x}"
  by (auto simp: set_discard_def)

lemma set_set_update [simp]: "set (set_update xs s) = set xs \<union> set s"
  unfolding set_update_def by (induction xs arbitrary: s) auto

lemma set_add_not_Nil [simp]: "set_add x xs \<noteq> []"
  by (auto simp: set_add_def)

lemma members_add_subscriber:
  "members (add_subscriber c s d) k = (if k = s then insert c (members d k) else members d k)"
  by (auto simp: members_def add_subscriber_def Let_def dom_def split: option.splits)

lemma add_subscriber_nonempty:
  "d k \<noteq> Some [] \<Longrightarrow> add_subscriber c s d k \<noteq> Some []"
  by (auto simp: add_subscriber_def Let_def)

lemma members_fold_add:
  "members (fold (add_subscriber c) syms d) k = (if k \<in> set syms then insert c (members d k) else members d k)"
  by (induction syms arbitrary: d) (auto simp: members_add_subscriber)

lemma fold_add_nonempty:
  "d k \<noteq> Some [] \<Longrightarrow> fold (add_subscriber c) syms d k \<noteq> Some []"
  by (induction syms arbitrary: d) (auto simp: add_subscriber_nonempty)

lemma set_discard_Nil_iff: "set_discard c l = [] \<longleftrightarrow> set l \<subseteq> {c}"
  using set_set_discard [of c l] by (metis Diff_eq_empty_iff set_empty)

lemma members_remove_subscriber:
  "members (remove_subscriber c s d) k = (if k = s then members d k - {c} else members d k)"
  by (auto simp: members_def remove_subscriber_def Let_def set_discard_Nil_iff split: option.splits)

lemma remove_subscriber_nonempty:
  "d k \<noteq> Some [] \<Longrightarrow> remove_subscriber c s d k \<noteq> Some []"
  by (auto simp: remove_subscriber_def Let_def split: option.splits)

lemma members_fold_remove:
  "members (fold (remove_subscriber c) syms d) k = (if k \<in> set syms then members d k - {c} else members d k)"
  by (induction syms arbitrary: d) (auto simp: members_remove_subscriber)

lemma fold_remove_nonempty:
  "d k \<noteq> Some [] \<Longrightarrow> fold (remove_subscriber c) syms d k \<noteq> Some []"
  by (induction syms arbitrary: d) (auto simp: remove_subscriber_nonempty)

lemma subscriptions_of_members: "subscriptions_of m = members (client_subscriptions m)"
  by (auto simp: subscriptions_of_def members_def fun_eq_iff)

lemma subscribers_of_members: "subscribers_of m = members (symbol_subscribers m)"
  by (auto simp: subscribers_of_def members_def fun_eq_iff)

lemma members_upd: "members (d(k \<mapsto> l)) k' = (if k' = k then set l else members d k')"
  by (auto simp: members_def)

lemma members_del: "members (d(k := None)) k' = (if k' = k then {} else members d k')"
  by (auto simp: members_def)

lemma members_None: "d k = None \<Longrightarrow> members d k = {}"
  by (simp add: members_def)

lemma members_Some: "d k = Some l \<Longrightarrow> members d k = set l"
  by (simp add: members_def)

lemma inv_mine:
  assumes "registry_inv m"
  shows "c \<in> members (symbol_subscribers m) s \<longleftrightarrow>
           s \<in> (case client_subscriptions m c of None \<Rightarrow> {} | Some l \<Rightarrow> set l)"
  using assms unfolding registry_inv_def subscriptions_of_members subscribers_of_members
  by (simp add: members_def)

lemma inv_subscribe:
  assumes "registry_inv m"
  shows "registry_inv (handle_client_subscription m c syms)"
proof -
  note mine = inv_mine [OF assms, of c]
  from assms have other: "\<And>c' s. s \<in> members (client_subscriptions m) c' \<longleftrightarrow> c' \<in> members (symbol_subscribers m) s"
    and ne: "\<And>s. symbol_subscribers m s \<noteq> Some []"
    unfolding registry_inv_def subscriptions_of_members subscribers_of_members by auto
  show ?thesis
    unfolding registry_inv_def subscriptions_of_members subscribers_of_members
    using mine
    by (cases "client_subscriptions m c")
       (auto simp: handle_client_subscription_def Let_def members_upd members_fold_add
          fold_add_nonempty ne dom_def other)
qed

lemma inv_unsub_step:
  assumes "registry_inv m" and "c \<in> dom (client_subscriptions m)"
  shows "registry_inv (unsubscribe_step c s m)"
proof -
  from assms(2) obtain l where l: "client_subscriptions m c = Some l" by auto
  note mine = inv_mine [OF assms(1), of c]
  from assms have other: "\<And>c' s. s \<in> members (client_subscriptions m) c' \<longleftrightarrow> c' \<in> members (symbol_subscribers m) s"
    and ne: "\<And>s. symbol_subscribers m s \<noteq> Some []"
    unfolding registry_inv_def subscriptions_of_members subscribers_of_members by auto
  show ?thesis
    unfolding registry_inv_def subscriptions_of_members subscribers_of_members
    using mine l
    by (auto simp: unsubscribe_step_def members_upd members_remove_subscriber
          remove_subscriber_nonempty ne other)
qed

lemma dom_unsub_step:
  "c \<in> dom (client_subscriptions m) \<Longrightarrow> c \<in> dom (client_subscriptions (unsubscribe_step c s m))"
  by (simp add: unsubscribe_step_def)

lemma inv_unsub_fold:
  "registry_inv m \<Longrightarrow> c \<in> dom (client_subscriptions m) \<Longrightarrow> registry_inv (fold (unsubscribe_step c) syms m)"
  by (induction syms arbitrary: m) (auto simp: inv_unsub_step dom_unsub_step)

lemma inv_unsubscribe: "registry_inv m \<Longrightarrow> registry_inv (unsubscribe_client_from_symbols m c syms)"
  by (simp add: unsubscribe_client_from_symbols_def inv_unsub_fold)

lemma inv_cleanup:
  assumes "registry_inv m"
  shows "registry_inv (cleanup_client m c)"
proof -
  note mine = inv_mine [OF assms, of c]
  from assms have other: "\<And>c' s. s \<in> members (client_subscriptions m) c' \<longleftrightarrow> c' \<in> members (symbol_subscribers m) s"
    and ne: "\<And>s. symbol_subscribers m s \<noteq> Some []"
    unfolding registry_inv_def subscriptions_of_members subscribers_of_members by auto
  show ?thesis
    unfolding registry_inv_def subscriptions_of_members subscribers_of_members
    using mine
    by (cases "client_subscriptions m c")
       (auto simp: cleanup_client_def Let_def members_del members_fold_remove
          fold_remove_nonempty ne other)
qed

lemma inv_event: "registry_inv m \<Longrightarrow> registry_inv (apply_event e m)"
  by (cases e) (simp_all add: inv_subscribe inv_unsubscribe inv_cleanup)


text \<open>
  C6. Started in a state where the two directions of the registry agree (a symbol is in a
  client's subscription set exactly when the client is in the symbol's subscriber set) and
  no symbol is stored with an empty subscriber set, every finite sequence of
  \<^verbatim>\<open>handle_client_subscription\<close>, \<^verbatim>\<open>_unsubscribe_client_from_symbols\<close> and
  \<^verbatim>\<open>_cleanup_client\<close> calls ends in such a state again.
\<close>

theorem registry_invariant_preserved:
  "registry_inv m \<Longrightarrow> registry_inv (run_events evs m)"
  unfolding run_events_def by (induction evs arbitrary: m) (simp_all add: inv_event)

lemma demo_registry_inv: "registry_inv demo_registry"
  by (simp add: registry_inv_def demo_registry_def subscriptions_of_def subscribers_of_def)

lemma demo_run: "symbol_subscribers (run_events demo_events demo_registry) = [''R'' \<mapsto> [''c1'']]"
  by (simp add: run_events_def demo_events_def demo_registry_def handle_client_subscription_def
      unsubscribe_client_from_symbols_def unsubscribe_step_def cleanup_client_def Let_def
      add_subscriber_def remove_subscriber_def set_add_def set_discard_def set_update_def fun_eq_iff)

theorem registry_invariant_witness:
  "registry_inv demo_registry \<and> registry_inv (run_events demo_events demo_registry)
   \<and> symbol_subscribers (run_events demo_events demo_registry) = [''R'' \<mapsto> [''c1'']]"
  using registry_invariant_preserved [of demo_registry demo_events] demo_registry_inv demo_run
  by simp

section \<open>Properties of the circuit breaker\<close>

lemma call_failing:
  assumes "always_fails cb func" "state cb = Closed"
  shows "fst (snd (call cb func w now now')) = on_failure cb now'"
proof -
  from assms(1) obtain e where "fst (func w) = Inl e" "expected_exception cb e"
    unfolding always_fails_def by blast
  with assms(2) show ?thesis
    by (cases "func w") (simp add: call_def)
qed

lemma on_failure_fields [simp]:
  "failure_threshold (on_failure cb t) = failure_threshold cb"
  "recovery_timeout (on_failure cb t) = recovery_timeout cb"
  "expected_exception (on_failure cb t) = expected_exception cb"
  "failure_count (on_failure cb t) = failure_count cb + 1"
  "last_failure_time (on_failure cb t) = Some t"
  by (simp_all add: on_failure_def Let_def)

lemma on_failure_state:
  "state (on_failure cb t) = (if failure_count cb + 1 \<ge> failure_threshold cb then Open else state cb)"
  by (simp add: on_failure_def Let_def)

lemma always_fails_cong:
  "expected_exception cb' = expected_exception cb \<Longrightarrow> always_fails cb' f = always_fails cb f"
  by (simp add: always_fails_def)

lemma run_failing_below:
  assumes "state cb = Closed"
    and "failure_count cb + int (length calls) < failure_threshold cb"
    and "\<forall>c \<in> set calls. always_fails cb (fst c)"
  shows "state (fst (run_calls calls (cb, w))) = Closed \<and>
         failure_count (fst (run_calls calls (cb, w))) = failure_count cb + int (length calls) \<and>
         failure_threshold (fst (run_calls calls (cb, w))) = failure_threshold cb \<and>
         recovery_timeout (fst (run_calls calls (cb, w))) = recovery_timeout cb \<and>
         expected_exception (fst (run_calls calls (cb, w))) = expected_exception cb"
  using assms
proof (induction calls arbitrary: cb w)
  case Nil
  then show ?case by (simp add: run_calls_def)
next
  case (Cons c calls)
  obtain func now now' where c: "c = (func, now, now')" by (cases c)
  obtain r cb1 w1 where r: "call cb func w now now' = (r, cb1, w1)" by (cases "call cb func w now now'")
  have f: "always_fails cb func" using Cons.prems(3) c by simp
  have cb1: "cb1 = on_failure cb now'" using call_failing [OF f Cons.prems(1), of w now now'] r by simp
  have st: "state cb1 = Closed" using Cons.prems(1,2) by (simp add: cb1 on_failure_state)
  have cnt: "failure_count cb1 + int (length calls) < failure_threshold cb1"
    using Cons.prems(2) by (simp add: cb1)
  have fl: "\<forall>c \<in> set calls. always_fails cb1 (fst c)"
    using Cons.prems(3) by (simp add: cb1 always_fails_def)
  have step: "run_calls (c # calls) (cb, w) = run_calls calls (cb1, w1)"
    by (simp add: run_calls_def call_step_def c r)
  show ?case using Cons.IH [OF st cnt fl, of w1] unfolding step by (simp add: cb1)
qed

lemma run_calls_snoc: "run_calls (calls @ [c]) s = call_step c (run_calls calls s)"
  by (simp add: run_calls_def)

lemma run_failing_opens:
  assumes cl: "state cb = Closed" and z: "failure_count cb = 0"
    and len: "int (length calls) = failure_threshold cb" and pos: "0 < failure_threshold cb"
    and fl: "\<forall>c \<in> set calls. always_fails cb (fst c)"
  shows "state (fst (run_calls calls (cb, w))) = Open \<and>
         last_failure_time (fst (run_calls calls (cb, w))) = Some (snd (snd (last calls))) \<and>
         recovery_timeout (fst (run_calls calls (cb, w))) = recovery_timeout cb"
proof -
  from len pos have ne: "calls \<noteq> []" by auto
  then obtain cs c where calls: "calls = cs @ [c]" by (metis rev_exhaust)
  obtain func now now' where c: "c = (func, now, now')" by (cases c)
  obtain cb0 w0 where s0: "run_calls cs (cb, w) = (cb0, w0)" by (cases "run_calls cs (cb, w)")
  have below: "failure_count cb + int (length cs) < failure_threshold cb"
    using len z calls by simp
  have flcs: "\<forall>c \<in> set cs. always_fails cb (fst c)" using fl calls by simp
  note b = run_failing_below [OF cl below flcs, of w, unfolded s0, simplified]
  have f: "always_fails cb0 func" using fl calls c b by (simp add: always_fails_def)
  have cb1: "fst (snd (call cb0 func w0 now now')) = on_failure cb0 now'"
    using call_failing [OF f] b by simp
  have "fst (run_calls calls (cb, w)) = on_failure cb0 now'"
    unfolding calls run_calls_snoc s0 by (simp add: call_step_def c cb1)
  moreover have "failure_count cb0 + 1 \<ge> failure_threshold cb0"
    using b z len calls by simp
  ultimately show ?thesis using b by (simp add: on_failure_state calls c)
qed

lemma call_open_early:
  assumes "state cb = Open" "last_failure_time cb = Some t" "now - t < of_int (recovery_timeout cb)"
  shows "call cb func w now now' = (Inl CircuitOpen, cb, w)"
  using assms by (simp add: call_def should_attempt_reset_def)

lemma call_open_late:
  assumes "state cb = Open" "last_failure_time cb = Some t" "now - t \<ge> of_int (recovery_timeout cb)"
  shows "snd (snd (call cb func w now now')) = snd (func w) \<and>
         (\<forall>a. fst (func w) = Inr a \<longrightarrow>
            fst (call cb func w now now') = Inr a \<and>
            state (fst (snd (call cb func w now now'))) = Closed \<and>
            failure_count (fst (snd (call cb func w now now'))) = 0)"
  using assms
  by (cases "func w") (auto simp: call_def should_attempt_reset_def on_success_def Let_def split: sum.splits)


text \<open>
  C4. A closed breaker with failure count 0 and a positive threshold, after
  \<^verbatim>\<open>failure_threshold\<close> consecutive calls that each raise an exception the breaker
  counts, is open. From then on a call made less than \<^verbatim>\<open>recovery_timeout\<close> seconds
  after the last failure raises "circuit open" and leaves the world untouched (the operation
  is not invoked); a call made at least \<^verbatim>\<open>recovery_timeout\<close> seconds after it
  invokes the operation, and if the operation returns, the breaker is closed with failure
  count 0 and the result is passed on.
\<close>

theorem circuit_breaker_opens_and_recovers:
  fixes cb :: "'e circuit_breaker" and calls :: "(('w \<Rightarrow> ('e + 'a) \<times> 'w) \<times> rat \<times> rat) list"
  assumes "state cb = Closed" and "failure_count cb = 0" and "0 < failure_threshold cb"
    and "int (length calls) = failure_threshold cb"
    and "\<forall>c \<in> set calls. always_fails cb (fst c)"
    and "run_calls calls (cb, w0) = (cb', w')"
  shows "state cb' = Open \<and>
    (\<forall>(func :: 'w \<Rightarrow> ('e + 'a) \<times> 'w) w now now'. now - snd (snd (last calls)) < of_int (recovery_timeout cb) \<longrightarrow>
        call cb' func w now now' = (Inl CircuitOpen, cb', w)) \<and>
    (\<forall>(func :: 'w \<Rightarrow> ('e + 'a) \<times> 'w) w now now'. now - snd (snd (last calls)) \<ge> of_int (recovery_timeout cb) \<longrightarrow>
        snd (snd (call cb' func w now now')) = snd (func w) \<and>
        (\<forall>a. fst (func w) = Inr a \<longrightarrow>
           fst (call cb' func w now now') = Inr a \<and>
           state (fst (snd (call cb' func w now now'))) = Closed \<and>
           failure_count (fst (snd (call cb' func w now now'))) = 0))"
proof -
  note o = run_failing_opens [OF assms(1,2,4,3,5), of w0, unfolded assms(6), simplified]
  from o have st: "state cb' = Open" and lt: "last_failure_time cb' = Some (snd (snd (last calls)))"
    and rt: "recovery_timeout cb' = recovery_timeout cb" by simp_all
  show ?thesis
  proof (intro conjI allI impI)
    show "state cb' = Open" by (rule st)
  next
    fix func :: "'w \<Rightarrow> ('e + 'a) \<times> 'w" and w now now'
    assume "now - snd (snd (last calls)) < of_int (recovery_timeout cb)"
    then show "call cb' func w now now' = (Inl CircuitOpen, cb', w)"
      using call_open_early [OF st lt, of now func w now'] by (simp add: rt)
  next
    fix func :: "'w \<Rightarrow> ('e + 'a) \<times> 'w" and w now now'
    assume "now - snd (snd (last calls)) \<ge> of_int (recovery_timeout cb)"
    then have late: "snd (snd (call cb' func w now now')) = snd (func w) \<and>
         (\<forall>a. fst (func w) = Inr a \<longrightarrow>
            fst (call cb' func w now now') = Inr a \<and>
            state (fst (snd (call cb' func w now now'))) = Closed \<and>
            failure_count (fst (snd (call cb' func w now now'))) = 0)"
      using call_open_late [OF st lt, of now func w now'] by (simp add: rt)
    from late show "snd (snd (call cb' func w now now')) = snd (func w)" by simp
    fix a assume "fst (func w) = Inr a"
    with late show "fst (call cb' func w now now') = Inr a"
      and "state (fst (snd (call cb' func w now now'))) = Closed"
      and "failure_count (fst (snd (call cb' func w now now'))) = 0" by simp_all
  qed
qed

lemma demo_run_calls: "run_calls demo_calls (demo_breaker, 0) = (opened_breaker, 2)"
  by (simp add: run_calls_def demo_calls_def call_step_def call_def failing_op_def demo_breaker_def
      opened_breaker_def on_failure_def Let_def)

lemma demo_always_fails: "\<forall>c \<in> set demo_calls. always_fails demo_breaker (fst c)"
  by (simp add: demo_calls_def always_fails_def failing_op_def demo_breaker_def)

theorem circuit_breaker_witness:
  "state opened_breaker = Open \<and>
   call opened_breaker working_op 5 62 62 = (Inl CircuitOpen, opened_breaker, 5) \<and>
   snd (snd (call opened_breaker working_op 5 63 63)) = 6 \<and>
   fst (call opened_breaker working_op 5 63 63) = Inr 7 \<and>
   state (fst (snd (call opened_breaker working_op 5 63 63))) = Closed \<and>
   failure_count (fst (snd (call opened_breaker working_op 5 63 63))) = 0"
proof -
  have h: "state demo_breaker = Closed" "failure_count demo_breaker = 0"
    "0 < failure_threshold demo_breaker" "int (length demo_calls) = failure_threshold demo_breaker"
    by (simp_all add: demo_breaker_def demo_calls_def)
  note t = circuit_breaker_opens_and_recovers [OF h demo_always_fails demo_run_calls]
  have l: "snd (snd (last demo_calls)) = 3" "recovery_timeout demo_breaker = 60"
    by (simp_all add: demo_calls_def demo_breaker_def)
  have w: "working_op 5 = (Inr 7, 6)" by (simp add: working_op_def)
  from t have a: "state opened_breaker = Open" by blast
  from t have "\<forall>(func :: nat \<Rightarrow> (string + int) \<times> nat) w now now'. now - 3 < 60 \<longrightarrow>
        call opened_breaker func w now now' = (Inl CircuitOpen, opened_breaker, w)"
    unfolding l by simp
  from this [rule_format, of 62 working_op 5 62]
  have b: "call opened_breaker working_op 5 62 62 = (Inl CircuitOpen, opened_breaker, 5)"
    by simp
  from t have "\<forall>(func :: nat \<Rightarrow> (string + int) \<times> nat) w now now'. now - 3 \<ge> 60 \<longrightarrow>
        snd (snd (call opened_breaker func w now now')) = snd (func w) \<and>
        (\<forall>a. fst (func w) = Inr a \<longrightarrow>
           fst (call opened_breaker func w now now') = Inr a \<and>
           state (fst (snd (call opened_breaker func w now now'))) = Closed \<and>
           failure_count (fst (snd (call opened_breaker func w now now'))) = 0)"
    unfolding l by simp
  from this [rule_format, of 63 working_op 5 63]
  have late: "snd (snd (call opened_breaker working_op 5 63 63)) = snd (working_op 5) \<and>
        (\<forall>a. fst (working_op 5) = Inr a \<longrightarrow>
           fst (call opened_breaker working_op 5 63 63) = Inr a \<and>
           state (fst (snd (call opened_breaker working_op 5 63 63))) = Closed \<and>
           failure_count (fst (snd (call opened_breaker working_op 5 63 63))) = 0)"
    by simp
  have c: "snd (snd (call opened_breaker working_op 5 63 63)) = 6"
    using late by (simp add: w)
  have d: "fst (call opened_breaker working_op 5 63 63) = Inr 7 \<and>
           state (fst (snd (call opened_breaker working_op 5 63 63))) = Closed \<and>
           failure_count (fst (snd (call opened_breaker working_op 5 63 63))) = 0"
    using late by (simp add: w)
  show ?thesis using a b c d by simp
qed

section \<open>Properties of the codec\<close>

lemma py_eq_refl [simp]: "py_eq v v"
  by (cases v) simp_all

lemma update_fresh: "k \<notin> fst ` set al \<Longrightarrow> AList.update k v al = al @ [(k, v)]"
  by (induction al) auto

lemma long_short:
  "k \<notin> short_aliases \<Longrightarrow> get_or_key reverse_mapping (get_or_key field_mapping k) = k"
  by (auto simp: short_aliases_def get_or_key_def field_mapping_def reverse_mapping_def)

lemma short_inj:
  "k \<notin> short_aliases \<Longrightarrow> k' \<notin> short_aliases \<Longrightarrow>
   get_or_key field_mapping k = get_or_key field_mapping k' \<Longrightarrow> k = k'"
  by (metis long_short)

lemma optimize_step_eq:
  "optimize_step (k, v) acc =
     (if v = VNone then acc else dict_set acc (get_or_key field_mapping k) (stored_value k v))"
  by (cases v) (simp_all add: optimize_step_def stored_value_def Let_def)


lemma fold_optimize:
  assumes "distinct (map fst xs)"
    and "\<forall>k \<in> fst ` set xs. k \<notin> short_aliases"
    and "\<forall>k \<in> fst ` set xs. get_or_key field_mapping k \<notin> fst ` set acc"
  shows "fold optimize_step xs acc =
           acc @ map (\<lambda>(k, v). (get_or_key field_mapping k, stored_value k v))
                     (filter (\<lambda>(k, v). v \<noteq> VNone) xs)"
  using assms
proof (induction xs arbitrary: acc)
  case Nil
  then show ?case by simp
next
  case (Cons x xs)
  obtain k v where x: "x = (k, v)" by (cases x)
  show ?case
  proof (cases "v = VNone")
    case True
    have "fold optimize_step xs acc =
           acc @ map (\<lambda>(k, v). (get_or_key field_mapping k, stored_value k v))
                     (filter (\<lambda>(k, v). v \<noteq> VNone) xs)"
      using Cons.prems by (intro Cons.IH) auto
    with True show ?thesis by (simp add: x optimize_step_eq)
  next
    case False
    let ?acc = "acc @ [(get_or_key field_mapping k, stored_value k v)]"
    have fresh: "get_or_key field_mapping k \<notin> fst ` set acc" using Cons.prems(3) x by simp
    have step: "optimize_step (k, v) acc = ?acc"
      using False fresh by (simp add: x optimize_step_eq dict_set_def update_fresh)
    have "\<forall>k' \<in> fst ` set xs. get_or_key field_mapping k' \<notin> fst ` set ?acc"
    proof
      fix k' assume k': "k' \<in> fst ` set xs"
      then have "k' \<noteq> k" using Cons.prems(1) x by auto
      moreover have "k \<notin> short_aliases" "k' \<notin> short_aliases" using Cons.prems(2) x k' by auto
      ultimately have "get_or_key field_mapping k' \<noteq> get_or_key field_mapping k"
        using short_inj by blast
      moreover have "get_or_key field_mapping k' \<notin> fst ` set acc" using Cons.prems(3) k' by auto
      ultimately show "get_or_key field_mapping k' \<notin> fst ` set ?acc" by auto
    qed
    then have "fold optimize_step xs ?acc =
           ?acc @ map (\<lambda>(k, v). (get_or_key field_mapping k, stored_value k v))
                     (filter (\<lambda>(k, v). v \<noteq> VNone) xs)"
      using Cons.prems by (intro Cons.IH) auto
    with False show ?thesis by (simp add: x step)
  qed
qed

lemma fold_restore:
  assumes "distinct (map (\<lambda>kv. get_or_key reverse_mapping (fst kv)) ys)"
    and "\<forall>k \<in> fst ` set ys. get_or_key reverse_mapping k \<notin> fst ` set acc"
  shows "fold restore_step ys acc = acc @ map (\<lambda>(k, v). (get_or_key reverse_mapping k, v)) ys"
  using assms
proof (induction ys arbitrary: acc)
  case Nil
  then show ?case by simp
next
  case (Cons y ys)
  obtain k v where y: "y = (k, v)" by (cases y)
  let ?acc = "acc @ [(get_or_key reverse_mapping k, v)]"
  have step: "restore_step (k, v) acc = ?acc"
    using Cons.prems(2) by (simp add: y restore_step_def dict_set_def update_fresh)
  have "\<forall>k' \<in> fst ` set ys. get_or_key reverse_mapping k' \<notin> fst ` set ?acc"
    using Cons.prems by (auto simp: y image_iff) 
  then have "fold restore_step ys ?acc = ?acc @ map (\<lambda>(k, v). (get_or_key reverse_mapping k, v)) ys"
    using Cons.prems by (intro Cons.IH) auto
  then show ?case by (simp add: y step)
qed

lemma restore_optimize:
  assumes d: "distinct (map fst Q)" and a: "\<forall>k \<in> fst ` set Q. k \<notin> short_aliases"
  shows "restore_data_structure (optimize_data_structure Q) =
           map (\<lambda>(k, v). (k, stored_value k v)) (filter (\<lambda>(k, v). v \<noteq> VNone) Q)"
proof -
  let ?F = "filter (\<lambda>(k, v). v \<noteq> VNone) Q"
  let ?O = "map (\<lambda>(k, v). (get_or_key field_mapping k, stored_value k v)) ?F"
  have opt: "optimize_data_structure Q = ?O"
    unfolding optimize_data_structure_def using fold_optimize [OF d a, of "[]"] by simp
  have keys: "map (\<lambda>kv. get_or_key reverse_mapping (fst kv)) ?O = map fst ?F"
    using a by (auto simp: long_short split_beta)
  have "distinct (map fst ?F)" using d by (simp add: distinct_map_filter)
  then have "distinct (map (\<lambda>kv. get_or_key reverse_mapping (fst kv)) ?O)" by (simp only: keys)
  then have "restore_data_structure ?O = map (\<lambda>(k, v). (get_or_key reverse_mapping k, v)) ?O"
    unfolding restore_data_structure_def using fold_restore [of ?O "[]"] by simp
  also have "\<dots> = map (\<lambda>(k, v). (k, stored_value k v)) ?F"
    using a by (auto simp: long_short split_beta)
  finally show ?thesis by (simp only: opt)
qed

text \<open>
  C1, as the code has it. For a field map with distinct keys, none of them one of the short
  aliases, \<^verbatim>\<open>_restore_data_structure(_optimize_data_structure(Q))\<close> is \<open>Q\<close> with
  its null fields dropped and its floats rounded (two places on the price fields, three on
  \<^verbatim>\<open>percent_change\<close>), in the same order. So it is \<open>Q\<close> itself when \<open>Q\<close> has no
  null field and every such float is already at its precision.
\<close>

theorem restore_optimize_roundtrip:
  assumes "distinct (map fst Q)"
    and "\<forall>k \<in> fst ` set Q. k \<notin> short_aliases"
  shows "restore_data_structure (optimize_data_structure Q) =
           map (\<lambda>(k, v). (k, stored_value k v)) (filter (\<lambda>(k, v). v \<noteq> VNone) Q) \<and>
         ((\<forall>(k, v) \<in> set Q. v \<noteq> VNone \<and> stored_value k v = v) \<longrightarrow>
            restore_data_structure (optimize_data_structure Q) = Q \<and>
            dict_eq (restore_data_structure (optimize_data_structure Q)) Q)"
proof -
  note r = restore_optimize [OF assms]
  have eq: "dict_eq Q Q" using assms(1)
    by (auto simp: dict_eq_def split: option.splits)
  have "restore_data_structure (optimize_data_structure Q) = Q"
    if h: "\<forall>(k, v) \<in> set Q. v \<noteq> VNone \<and> stored_value k v = v"
  proof -
    have "filter (\<lambda>(k, v). v \<noteq> VNone) Q = Q" using h by (auto simp: filter_id_conv)
    moreover have "map (\<lambda>(k, v). (k, stored_value k v)) Q = Q"
      using h by (auto intro!: map_idI)
    ultimately show ?thesis using r by simp
  qed
  with r eq show ?thesis by auto
qed

text \<open>
  The round trip as the claim states it fails on a quote whose optional fields are null, and
  on a quote whose price has more decimal places than the codec keeps.
\<close>

theorem restore_optimize_counterexample:
  "\<not> dict_eq (restore_data_structure (optimize_data_structure (to_dict quote_without_bid)))
       (to_dict quote_without_bid) \<and>
   \<not> dict_eq (restore_data_structure (optimize_data_structure (to_dict quote_long_price)))
       (to_dict quote_long_price)"
  by code_simp

theorem restore_optimize_witness:
  "restore_data_structure (optimize_data_structure (to_dict quote_rounded)) = to_dict quote_rounded \<and>
   restore_data_structure (optimize_data_structure (to_dict quote_long_price)) =
     map (\<lambda>(k, v). (k, stored_value k v)) (filter (\<lambda>(k, v). v \<noteq> VNone) (to_dict quote_long_price))"
proof -
  have d: "distinct (map fst (to_dict quote_rounded))" "distinct (map fst (to_dict quote_long_price))"
    by code_simp+
  have a: "\<forall>k \<in> fst ` set (to_dict quote_rounded). k \<notin> short_aliases"
    "\<forall>k \<in> fst ` set (to_dict quote_long_price). k \<notin> short_aliases"
    by code_simp+
  have f: "\<forall>(k, v) \<in> set (to_dict quote_rounded). v \<noteq> VNone \<and> stored_value k v = v"
    by code_simp
  from restore_optimize_roundtrip [OF d(1) a(1)] f restore_optimize_roundtrip [OF d(2) a(2)]
  show ?thesis by blast
qed

lemma delta_step_fixed [simp]:
  "upd_symbol (delta_step B kv d) = upd_symbol d"
  "upd_type (delta_step B kv d) = upd_type d"
  "upd_data (delta_step B kv d) = upd_data d"
  by (cases kv; simp add: delta_step_def Let_def)+

lemma fold_delta_fixed [simp]:
  "upd_symbol (fold (delta_step B) xs d) = upd_symbol d"
  "upd_type (fold (delta_step B) xs d) = upd_type d"
  "upd_data (fold (delta_step B) xs d) = upd_data d"
  by (induction xs arbitrary: d; simp)+

lemma fold_delta_timestamp:
  "distinct (map fst xs) \<Longrightarrow>
   upd_timestamp (fold (delta_step B) xs d) =
     (case map_of xs ''timestamp'' of None \<Rightarrow> upd_timestamp d | Some t \<Rightarrow> t)"
proof (induction xs arbitrary: d)
  case Nil
  then show ?case by simp
next
  case (Cons x xs)
  obtain k v where x: "x = (k, v)" by (cases x)
  have nk: "k = ''timestamp'' \<Longrightarrow> map_of xs ''timestamp'' = None"
    using Cons.prems x by (auto simp: map_of_eq_None_iff)
  show ?case using Cons.prems Cons.IH [of "delta_step B x d"] nk
    by (auto simp: x delta_step_def Let_def split: option.splits)
qed

lemma fold_delta_changes:
  assumes "distinct (map fst xs)" and "upd_changes d = Some ch"
    and "fst ` set xs \<inter> fst ` set ch = {}"
  shows "upd_changes (fold (delta_step B) xs d) = Some (ch @ filter (changed B) xs)"
  using assms
proof (induction xs arbitrary: d ch)
  case Nil
  then show ?case by simp
next
  case (Cons x xs)
  obtain k v where x: "x = (k, v)" by (cases x)
  show ?case
  proof (cases "changed B x")
    case True
    have fresh: "k \<notin> fst ` set ch" using Cons.prems(3) x by auto
    have step: "upd_changes (delta_step B (k, v) d) = Some (ch @ [(k, v)])"
      using True Cons.prems(2) fresh
      by (simp add: x changed_def delta_step_def Let_def dict_set_def update_fresh)
    have "fst ` set xs \<inter> fst ` set (ch @ [(k, v)]) = {}"
      using Cons.prems(1,3) x by auto
    from Cons.IH [OF _ step this] Cons.prems(1) True show ?thesis by (simp add: x)
  next
    case False
    have step: "upd_changes (delta_step B (k, v) d) = Some ch"
      using False Cons.prems(2) by (auto simp: x changed_def delta_step_def Let_def)
    have "fst ` set xs \<inter> fst ` set ch = {}" using Cons.prems(3) by auto
    from Cons.IH [OF _ step this] Cons.prems(1) False show ?thesis by (simp add: x)
  qed
qed

lemma filter_changed_Nil: "filter (changed B) Q = [] \<longleftrightarrow> new_fields_unchanged Q B"
  by (auto simp: filter_empty_conv changed_def new_fields_unchanged_def)

lemma create_delta_update_result:
  assumes "distinct (map fst (as_dict new_data))"
  shows "create_delta_update cs S new_data now now' =
     (if new_fields_unchanged (as_dict new_data) (baseline cs S)
      then (\<lparr>upd_symbol = S, upd_type = ''heartbeat'',
              upd_timestamp = dict_get_default (as_dict new_data) ''timestamp'' (VStr now'),
              upd_changes = None, upd_data = None\<rparr>,
            cs\<lparr>previous_data_cache := (previous_data_cache cs)(S \<mapsto> as_dict new_data)\<rparr>)
      else (\<lparr>upd_symbol = S, upd_type = ''delta'',
              upd_timestamp = dict_get_default (as_dict new_data) ''timestamp'' (VStr now),
              upd_changes = Some (filter (changed (baseline cs S)) (as_dict new_data)),
              upd_data = None\<rparr>,
            cs\<lparr>previous_data_cache := (previous_data_cache cs)(S \<mapsto> as_dict new_data),
               delta_updates := delta_updates cs + 1\<rparr>))"
proof -
  let ?Q = "as_dict new_data" and ?B = "baseline cs S"
  let ?init = "\<lparr>upd_symbol = S, upd_type = ''delta'',
              upd_timestamp = dict_get_default ?Q ''timestamp'' (VStr now),
              upd_changes = Some [], upd_data = None\<rparr>"
  let ?d = "fold (delta_step ?B) ?Q ?init"
  have ch: "upd_changes ?d = Some (filter (changed ?B) ?Q)"
    using fold_delta_changes [OF assms, where d = ?init and ch = "[]" and B = ?B] by simp
  have ts: "upd_timestamp ?d = dict_get_default ?Q ''timestamp'' (VStr now)"
    using fold_delta_timestamp [OF assms, where B = ?B and d = ?init]
    by (simp add: dict_get_default_def split: option.splits)
  have d: "?d = \<lparr>upd_symbol = S, upd_type = ''delta'',
              upd_timestamp = dict_get_default ?Q ''timestamp'' (VStr now),
              upd_changes = Some (filter (changed ?B) ?Q), upd_data = None\<rparr>"
    by (rule update.equality) (simp_all add: ch ts)
  show ?thesis
    unfolding create_delta_update_def Let_def baseline_def [symmetric] d
    by (simp add: filter_changed_Nil)
qed


lemma map_of_filter_distinct:
  "distinct (map fst xs) \<Longrightarrow>
   map_of (filter P xs) k = Some v \<longleftrightarrow> map_of xs k = Some v \<and> P (k, v)"
proof (induction xs)
  case Nil
  then show ?case by simp
next
  case (Cons x xs)
  obtain k' v' where x: "x = (k', v')" by (cases x)
  have "k' \<notin> fst ` set xs" using Cons.prems x by simp
  then have "map_of xs k' = None" by (simp add: map_of_eq_None_iff)
  with Cons show ?case by (auto simp: x)
qed

lemma equal_except_timestamp_iff:
  assumes "distinct (map fst Q)" and "fst ` set B \<subseteq> fst ` set Q"
  shows "equal_except_timestamp Q B \<longleftrightarrow> new_fields_unchanged Q B"
proof -
  have keys: "set (map fst Q) \<union> set (map fst B) = fst ` set Q" using assms(2) by auto
  have get: "\<And>k v. (k, v) \<in> set Q \<Longrightarrow> dict_get Q k = v"
    using assms(1) by (simp add: dict_get_def)
  show ?thesis
    unfolding equal_except_timestamp_def new_fields_unchanged_def keys
    using get by fastforce
qed

text \<open>
  C2, as the code has it. \<^verbatim>\<open>create_delta_update\<close> compares the fields of the new map
  \<open>Q\<close> only, against the baseline \<open>B\<close> of the symbol (the empty map when none is
  cached, a field absent from \<open>B\<close> read as null). If every field of \<open>Q\<close> other than
  \<^verbatim>\<open>timestamp\<close> has the value \<open>B\<close> gives it, the result is a heartbeat with no
  changes and no data; otherwise it is a delta whose changes are exactly the fields of
  \<open>Q\<close> other than \<^verbatim>\<open>timestamp\<close> whose value differs from \<open>B\<close>'s. The result
  carries \<open>Q\<close>'s timestamp when \<open>Q\<close> has one, and the baseline stored afterwards is
  \<open>Q\<close>. When every field of \<open>B\<close> is a field of \<open>Q\<close>, "unchanged" is the claim's
  "\<open>Q\<close> equals \<open>B\<close> on every field other than timestamp".
\<close>

theorem delta_update_reports_changed_fields:
  assumes "distinct (map fst (as_dict new_data))"
    and "create_delta_update cs S new_data now now' = (u, cs')"
  shows
    "(new_fields_unchanged (as_dict new_data) (baseline cs S) \<longrightarrow>
        upd_type u = ''heartbeat'' \<and> upd_changes u = None \<and> upd_data u = None) \<and>
     (\<not> new_fields_unchanged (as_dict new_data) (baseline cs S) \<longrightarrow>
        upd_type u = ''delta'' \<and> upd_data u = None \<and>
        (\<exists>ch. upd_changes u = Some ch \<and>
           (\<forall>k v. map_of ch k = Some v \<longleftrightarrow>
              k \<noteq> ''timestamp'' \<and> map_of (as_dict new_data) k = Some v \<and>
              \<not> py_eq (dict_get (baseline cs S) k) v))) \<and>
     (\<forall>t. map_of (as_dict new_data) ''timestamp'' = Some t \<longrightarrow> upd_timestamp u = t) \<and>
     upd_symbol u = S \<and>
     previous_data_cache cs' S = Some (as_dict new_data) \<and>
     (fst ` set (baseline cs S) \<subseteq> fst ` set (as_dict new_data) \<longrightarrow>
        (new_fields_unchanged (as_dict new_data) (baseline cs S) \<longleftrightarrow>
         equal_except_timestamp (as_dict new_data) (baseline cs S)))"
proof -
  note r = create_delta_update_result [OF assms(1), of cs S now now', unfolded assms(2)]
  have m: "\<And>k v. map_of (filter (changed (baseline cs S)) (as_dict new_data)) k = Some v \<longleftrightarrow>
              k \<noteq> ''timestamp'' \<and> map_of (as_dict new_data) k = Some v \<and>
              \<not> py_eq (dict_get (baseline cs S) k) v"
    using map_of_filter_distinct [OF assms(1)] by (auto simp: changed_def)
  show ?thesis
  proof (cases "new_fields_unchanged (as_dict new_data) (baseline cs S)")
    case True
    with r have "u = \<lparr>upd_symbol = S, upd_type = ''heartbeat'',
              upd_timestamp = dict_get_default (as_dict new_data) ''timestamp'' (VStr now'),
              upd_changes = None, upd_data = None\<rparr>"
      and "cs' = cs\<lparr>previous_data_cache := (previous_data_cache cs)(S \<mapsto> as_dict new_data)\<rparr>"
      by simp_all
    with True show ?thesis
      using equal_except_timestamp_iff [OF assms(1)]
      by (simp add: dict_get_default_def)
  next
    case False
    with r have "u = \<lparr>upd_symbol = S, upd_type = ''delta'',
              upd_timestamp = dict_get_default (as_dict new_data) ''timestamp'' (VStr now),
              upd_changes = Some (filter (changed (baseline cs S)) (as_dict new_data)),
              upd_data = None\<rparr>"
      and "cs' = cs\<lparr>previous_data_cache := (previous_data_cache cs)(S \<mapsto> as_dict new_data),
               delta_updates := delta_updates cs + 1\<rparr>"
      by simp_all
    with False show ?thesis
      using equal_except_timestamp_iff [OF assms(1)] m
      by (simp add: dict_get_default_def)
  qed
qed

text \<open>
  The claim as stated fails when the baseline has a field the new map lacks: the maps differ
  on \<^verbatim>\<open>bid_price\<close>, and the update is a heartbeat.
\<close>

theorem delta_update_counterexample:
  "\<not> equal_except_timestamp fields_without_bid baseline_fields \<and>
   previous_data_cache demo_service ''500325'' = Some baseline_fields \<and>
   upd_type (fst (create_delta_update demo_service ''500325'' (DictData fields_without_bid)
      ''2024-01-01T10:00:06'' ''2024-01-01T10:00:06'')) = ''heartbeat''"
  by code_simp

lemma demo_distinct: "distinct (map fst (as_dict (DictData fields_new_price)))"
  by code_simp

lemma demo_changed:
  "\<not> new_fields_unchanged (as_dict (DictData fields_new_price)) (baseline demo_service ''500325'')"
  by code_simp

theorem delta_update_witness:
  "upd_type (fst (create_delta_update demo_service ''500325'' (DictData fields_new_price)
      ''2024-01-01T10:00:06'' ''2024-01-01T10:00:06'')) = ''delta'' \<and>
   upd_changes (fst (create_delta_update demo_service ''500325'' (DictData fields_new_price)
      ''2024-01-01T10:00:06'' ''2024-01-01T10:00:06'')) = Some [(''current_price'', VFloat (10011 / 4))] \<and>
   upd_timestamp (fst (create_delta_update demo_service ''500325'' (DictData fields_new_price)
      ''2024-01-01T10:00:06'' ''2024-01-01T10:00:06'')) = VStr ''2024-01-01T10:00:05'' \<and>
   previous_data_cache (snd (create_delta_update demo_service ''500325'' (DictData fields_new_price)
      ''2024-01-01T10:00:06'' ''2024-01-01T10:00:06'')) ''500325'' = Some fields_new_price"
proof -
  let ?r = "create_delta_update demo_service ''500325'' (DictData fields_new_price)
      ''2024-01-01T10:00:06'' ''2024-01-01T10:00:06''"
  have p: "?r = (fst ?r, snd ?r)" by simp
  note t = delta_update_reports_changed_fields [OF demo_distinct p]
  have ts: "map_of (as_dict (DictData fields_new_price)) ''timestamp'' = Some (VStr ''2024-01-01T10:00:05'')"
    by code_simp
  have ch: "upd_changes (fst ?r) = Some [(''current_price'', VFloat (10011 / 4))]"
    by code_simp
  from t demo_changed have "upd_type (fst ?r) = ''delta''" by blast
  moreover from t ts have "upd_timestamp (fst ?r) = VStr ''2024-01-01T10:00:05''" by blast
  moreover from t have "previous_data_cache (snd ?r) ''500325'' = Some fields_new_price" by simp
  ultimately show ?thesis using ch by simp
qed

lemma distinct_to_dict: "distinct (map fst (to_dict q))"
  by (simp add: to_dict_def)





section \<open>Properties of the batch fetcher\<close>

lemma keys_update [simp]: "dict_keys (AList.update k v al) = insert k (dict_keys al)"
  using dom_update [of k v al] by (simp add: dict_keys_def)

lemma keys_Nil [simp]: "dict_keys [] = {}"
  by (simp add: dict_keys_def)

lemma breaker_check_fields [simp]:
  "max_batch_size (snd (is_circuit_breaker_open f now)) = max_batch_size f"
  "max_retries (snd (is_circuit_breaker_open f now)) = max_retries f"
  "update_callbacks (snd (is_circuit_breaker_open f now)) = update_callbacks f"
  by (simp_all add: is_circuit_breaker_open_def split: option.splits)

lemma retry_loop_keys:
  assumes "retry_loop env symbol attempts last_error (result, f, w) = ((success, e), result', f', w')"
  shows "dict_keys (successful_quotes result') = (if success then insert symbol (dict_keys (successful_quotes result)) else dict_keys (successful_quotes result))
       \<and> (\<not> success \<longrightarrow> successful_quotes result' = successful_quotes result)
       \<and> failed_symbols result' = failed_symbols result
       \<and> update_callbacks f' = update_callbacks f
       \<and> max_batch_size f' = max_batch_size f
       \<and> max_retries f' = max_retries f"
  using assms
proof (induction attempts arbitrary: last_error w)
  case Nil
  then show ?case by auto
next
  case (Cons attempt attempts)
  obtain r w1 where fq: "fetch_single_quote env symbol w = (r, w1)"
    by (cases "fetch_single_quote env symbol w")
  show ?case
  proof (cases r)
    case (Fetched quote)
    with Cons.prems fq show ?thesis
      by (auto simp: Let_def split: option.splits)
  next
    case NoQuote
    with Cons.prems fq have "retry_loop env symbol attempts (Some ''No data returned from API'')
        (result, f, wait_before_retry env f attempt w1) = ((success, e), result', f', w')" by simp
    then show ?thesis by (rule Cons.IH)
  next
    case (FetchRaised msg)
    with Cons.prems fq have "retry_loop env symbol attempts (Some msg)
        (result, f, wait_before_retry env f attempt w1) = ((success, e), result', f', w')" by simp
    then show ?thesis by (rule Cons.IH)
  qed
qed

lemma fetch_symbol_keys:
  assumes "fetch_symbol env symbol (result, f, w) = (result', f', w')"
  shows "dict_keys (successful_quotes result') \<union> dict_keys (failed_symbols result') =
           insert symbol (dict_keys (successful_quotes result) \<union> dict_keys (failed_symbols result))
       \<and> dict_keys (successful_quotes result') \<subseteq> insert symbol (dict_keys (successful_quotes result))
       \<and> dict_keys (failed_symbols result') \<subseteq> insert symbol (dict_keys (failed_symbols result))
       \<and> update_callbacks f' = update_callbacks f
       \<and> max_batch_size f' = max_batch_size f
       \<and> max_retries f' = max_retries f"
proof -
  obtain success e r1 f1 w1 where
    rl: "retry_loop env symbol [0 ..< nat (max_retries f + 1)] None (result, f, w) = ((success, e), r1, f1, w1)"
    by (metis prod.collapse)
  note k = retry_loop_keys [OF rl]
  show ?thesis
  proof (cases success)
    case True
    with assms rl have "result' = r1" "f' = f1" by (simp_all add: fetch_symbol_def)
    with k True show ?thesis by auto
  next
    case False
    with assms rl have
      "result' = r1\<lparr>failed_symbols := AList.update symbol (or_unknown_error e) (failed_symbols r1)\<rparr>"
      and "update_callbacks f' = update_callbacks f1 \<and> max_batch_size f' = max_batch_size f1 \<and> max_retries f' = max_retries f1"
      by (auto simp: fetch_symbol_def Let_def split: option.splits)
    with k False show ?thesis by auto
  qed
qed

lemma fold_fetch_symbol_keys:
  assumes "fold (fetch_symbol env) symbols (result, f, w) = (result', f', w')"
  shows "dict_keys (successful_quotes result') \<union> dict_keys (failed_symbols result') =
           set symbols \<union> (dict_keys (successful_quotes result) \<union> dict_keys (failed_symbols result))
       \<and> dict_keys (successful_quotes result') \<subseteq> set symbols \<union> dict_keys (successful_quotes result)
       \<and> dict_keys (failed_symbols result') \<subseteq> set symbols \<union> dict_keys (failed_symbols result)
       \<and> update_callbacks f' = update_callbacks f
       \<and> max_batch_size f' = max_batch_size f"
  using assms
proof (induction symbols arbitrary: result f w)
  case Nil
  then show ?case by simp
next
  case (Cons symbol symbols)
  obtain r1 f1 w1 where s: "fetch_symbol env symbol (result, f, w) = (r1, f1, w1)"
    by (metis prod.collapse)
  note k = fetch_symbol_keys [OF s]
  from Cons.prems s have "fold (fetch_symbol env) symbols (r1, f1, w1) = (result', f', w')" by simp
  note ih = Cons.IH [OF this]
  from k ih show ?case by auto
qed


lemma map_of_fold_const:
  "map_of (fold (\<lambda>symbol d. AList.update symbol m d) symbols acc) s =
     (if s \<in> set symbols then Some m else map_of acc s)"
  by (induction symbols arbitrary: acc) (auto simp: update_conv')

lemma keys_fold_const:
  "dict_keys (fold (\<lambda>symbol d. AList.update symbol m d) symbols acc) = set symbols \<union> dict_keys acc"
  by (induction symbols arbitrary: acc) auto

lemma fetch_all_open:
  assumes "fst (is_circuit_breaker_open f (clock env w))"
  shows "fetch_all env f symbols w =
     (False,
      \<lparr>successful_quotes = [],
        failed_symbols = fold (\<lambda>symbol d. AList.update symbol circuit_open_message d) symbols [],
        fetch_time = clock env w, batch_duration = 0\<rparr>,
      snd (is_circuit_breaker_open f (clock env w)), w)"
  using assms by (cases "is_circuit_breaker_open f (clock env w)") (simp add: fetch_all_def Let_def)

text \<open>
  C10. When the fetcher's own breaker is open, \<^verbatim>\<open>fetch_batch_quotes\<close> returns before
  the truncation: no quote is successful, every symbol of the input list (also beyond
  \<^verbatim>\<open>max_batch_size\<close>) is a failed symbol with the one circuit-open message, and the world
  is as it was: no fetch was attempted and no callback ran.
\<close>

theorem open_breaker_rejects_whole_batch:
  assumes "fst (is_circuit_breaker_open f (clock env w))"
  shows "successful_quotes (fst (fetch_batch_quotes env f symbols w)) = [] \<and>
         dict_keys (failed_symbols (fst (fetch_batch_quotes env f symbols w))) = set symbols \<and>
         (\<forall>s \<in> set symbols.
            map_of (failed_symbols (fst (fetch_batch_quotes env f symbols w))) s = Some circuit_open_message) \<and>
         snd (snd (fetch_batch_quotes env f symbols w)) = w"
  by (simp add: fetch_batch_quotes_def fetch_all_open [OF assms] map_of_fold_const keys_fold_const)

theorem open_breaker_witness:
  "fst (is_circuit_breaker_open tripped_fetcher (clock demo_env quiet_world)) \<and>
   int (length [''500325'', ''X'', ''Y'']) > max_batch_size tripped_fetcher \<and>
   successful_quotes (fst (fetch_batch_quotes demo_env tripped_fetcher [''500325'', ''X'', ''Y''] quiet_world)) = [] \<and>
   map_of (failed_symbols (fst (fetch_batch_quotes demo_env tripped_fetcher [''500325'', ''X'', ''Y''] quiet_world))) ''Y''
     = Some circuit_open_message \<and>
   fetched (snd (snd (fetch_batch_quotes demo_env tripped_fetcher [''500325'', ''X'', ''Y''] quiet_world))) = []"
proof -
  have h: "fst (is_circuit_breaker_open tripped_fetcher (clock demo_env quiet_world))" by code_simp
  have l: "int (length [''500325'', ''X'', ''Y'']) > max_batch_size tripped_fetcher" by code_simp
  have q: "fetched quiet_world = []" by (simp add: quiet_world_def)
  from open_breaker_rejects_whole_batch [OF h, of "[''500325'', ''X'', ''Y'']"] h l q
  show ?thesis by simp
qed

lemma fetch_all_closed:
  assumes "\<not> fst (is_circuit_breaker_open f (clock env w))"
    and "is_circuit_breaker_open f (clock env w) = (b, f1)"
    and "symbols1 = (if int (length symbols) > max_batch_size f
                     then slice_to symbols (max_batch_size f) else symbols)"
    and "fold (fetch_symbol env) symbols1
           (\<lparr>successful_quotes = [], failed_symbols = [], fetch_time = clock env w, batch_duration = 0\<rparr>, f1, w)
         = (result1, f2, w1)"
  shows "\<exists>f'. fetch_all env f symbols w = (True, result1\<lparr>batch_duration := clock env w1 - clock env w\<rparr>, f', w1)
           \<and> update_callbacks f' = update_callbacks f"
proof -
  from assms(1,2) have b: "b = False" by simp
  have m: "max_batch_size f1 = max_batch_size f" and c: "update_callbacks f1 = update_callbacks f"
    using breaker_check_fields [of f "clock env w"] assms(2) by simp_all
  have c2: "update_callbacks f2 = update_callbacks f"
    using fold_fetch_symbol_keys [OF assms(4)] c by simp
  have s: "(if int (length symbols) > max_batch_size f1
            then slice_to symbols (max_batch_size f1) else symbols) = symbols1"
    by (simp add: m assms(3))
  have "fetch_all env f symbols w =
      (case fold (fetch_symbol env) symbols1
           (\<lparr>successful_quotes = [], failed_symbols = [], fetch_time = clock env w, batch_duration = 0\<rparr>, f1, w) of
         (result1, f2, w1) \<Rightarrow>
           (let f3 = f2\<lparr>total_requests := total_requests f2 + 1\<rparr>;
                f4 = (if successful_quotes result1 \<noteq> []
                      then f3\<lparr>successful_requests := successful_requests f3 + 1\<rparr> else f3);
                f5 = (if failed_symbols result1 \<noteq> []
                      then f4\<lparr>failed_requests := failed_requests f4 + 1\<rparr> else f4);
                result2 = result1\<lparr>batch_duration := clock env w1 - clock env w\<rparr>;
                f6 = f5\<lparr>last_batch_time := Some (fetch_time result2)\<rparr>
            in (True, result2, f6, w1)))"
    unfolding fetch_all_def assms(2) b by (simp only: Let_def prod.case bool.case s)
  then show ?thesis using c2 by (simp add: assms(4) Let_def)
qed

lemma fetch_all_truncates:
  assumes "\<not> fst (is_circuit_breaker_open f (clock env w))"
    and "int (length symbols) > max_batch_size f" and "0 \<le> max_batch_size f"
  shows "fetch_all env f symbols w = fetch_all env f (take (nat (max_batch_size f)) symbols) w"
proof -
  obtain b f1 where o: "is_circuit_breaker_open f (clock env w) = (b, f1)" by (metis prod.collapse)
  from assms(1) o have b: "b = False" by simp
  have m: "max_batch_size f1 = max_batch_size f"
    using breaker_check_fields [of f "clock env w"] o by simp
  have l: "\<not> int (length (take (nat (max_batch_size f)) symbols)) > max_batch_size f"
    using assms(2,3) by simp
  have s1: "(if int (length symbols) > max_batch_size f1
             then slice_to symbols (max_batch_size f1) else symbols)
            = take (nat (max_batch_size f)) symbols"
    using assms(2,3) by (simp add: m slice_to_def)
  have s2: "(if int (length (take (nat (max_batch_size f)) symbols)) > max_batch_size f1
             then slice_to (take (nat (max_batch_size f)) symbols) (max_batch_size f1)
             else take (nat (max_batch_size f)) symbols)
            = take (nat (max_batch_size f)) symbols"
    using l by (simp only: m if_False)
  show ?thesis
    unfolding fetch_all_def o b by (simp only: Let_def prod.case bool.case s1 s2)
qed

text \<open>
  C5. With the breaker not open and a batch limit that is not negative, a call with more
  than \<^verbatim>\<open>max_batch_size\<close> symbols returns what the call with the first
  \<^verbatim>\<open>max_batch_size\<close> symbols returns, with the same fetcher state and the same effect
  on the world: only those symbols are fetched. The symbols of the returned
  \<^verbatim>\<open>BatchResult\<close>, successful or failed, are exactly those first symbols. The function
  has no raising path of its own: it returns a result for every input.
\<close>

theorem oversize_batch_is_truncated:
  assumes "int (length symbols) > max_batch_size f" and "0 \<le> max_batch_size f"
    and "\<not> fst (is_circuit_breaker_open f (clock env w))"
  shows "fetch_batch_quotes env f symbols w =
           fetch_batch_quotes env f (take (nat (max_batch_size f)) symbols) w \<and>
         dict_keys (successful_quotes (fst (fetch_batch_quotes env f symbols w))) \<union>
         dict_keys (failed_symbols (fst (fetch_batch_quotes env f symbols w))) =
           set (take (nat (max_batch_size f)) symbols)"
proof -
  let ?t = "take (nat (max_batch_size f)) symbols"
  have eq: "fetch_batch_quotes env f symbols w = fetch_batch_quotes env f ?t w"
    unfolding fetch_batch_quotes_def fetch_all_truncates [OF assms(3,1,2)] ..
  obtain b f1 where o: "is_circuit_breaker_open f (clock env w) = (b, f1)" by (metis prod.collapse)
  let ?r0 = "\<lparr>successful_quotes = [], failed_symbols = [], fetch_time = clock env w, batch_duration = 0\<rparr>"
  obtain result1 f2 w1 where fo: "fold (fetch_symbol env) ?t (?r0, f1, w) = (result1, f2, w1)"
    by (metis prod.collapse)
  have s1: "?t = (if int (length symbols) > max_batch_size f
                     then slice_to symbols (max_batch_size f) else symbols)"
    using assms(1,2) by (simp add: slice_to_def)
  from fetch_all_closed [OF assms(3) o s1 fo] obtain f' where
    fa: "fetch_all env f symbols w = (True, result1\<lparr>batch_duration := clock env w1 - clock env w\<rparr>, f', w1)"
    by blast
  have r: "fst (fetch_batch_quotes env f symbols w) = result1\<lparr>batch_duration := clock env w1 - clock env w\<rparr>"
    by (simp add: fetch_batch_quotes_def fa)
  have "dict_keys (successful_quotes result1) \<union> dict_keys (failed_symbols result1) = set ?t"
    using fold_fetch_symbol_keys [OF fo] by simp
  with eq r show ?thesis by simp
qed

theorem oversize_batch_witness:
  "int (length [''500325'', ''X'', ''Y'']) > max_batch_size demo_fetcher \<and>
   map fst (successful_quotes (fst (fetch_batch_quotes demo_env demo_fetcher [''500325'', ''X'', ''Y''] quiet_world))) = [''500325''] \<and>
   failed_symbols (fst (fetch_batch_quotes demo_env demo_fetcher [''500325'', ''X'', ''Y''] quiet_world)) =
      [(''X'', ''No data returned from API'')] \<and>
   fetched (snd (snd (fetch_batch_quotes demo_env demo_fetcher [''500325'', ''X'', ''Y''] quiet_world))) = [''500325'', ''X'', ''X''] \<and>
   fetch_batch_quotes demo_env demo_fetcher [''500325'', ''X'', ''Y''] quiet_world =
     fetch_batch_quotes demo_env demo_fetcher [''500325'', ''X''] quiet_world"
proof -
  have h: "int (length [''500325'', ''X'', ''Y'']) > max_batch_size demo_fetcher"
    "0 \<le> max_batch_size demo_fetcher"
    "\<not> fst (is_circuit_breaker_open demo_fetcher (clock demo_env quiet_world))"
    by code_simp+
  have t: "take (nat (max_batch_size demo_fetcher)) [''500325'', ''X'', ''Y''] = [''500325'', ''X'']"
    by code_simp
  have r: "map fst (successful_quotes (fst (fetch_batch_quotes demo_env demo_fetcher [''500325'', ''X''] quiet_world))) = [''500325'']"
    "failed_symbols (fst (fetch_batch_quotes demo_env demo_fetcher [''500325'', ''X''] quiet_world)) =
      [(''X'', ''No data returned from API'')]"
    "fetched (snd (snd (fetch_batch_quotes demo_env demo_fetcher [''500325'', ''X''] quiet_world))) = [''500325'', ''X'', ''X'']"
    by code_simp+
  from oversize_batch_is_truncated [OF h] t
  have "fetch_batch_quotes demo_env demo_fetcher [''500325'', ''X'', ''Y''] quiet_world =
     fetch_batch_quotes demo_env demo_fetcher [''500325'', ''X''] quiet_world" by simp
  with h(1) r show ?thesis by simp
qed






section \<open>Properties of the cache integration\<close>

lemma get_stock_data_write_returns:
  assumes "cache_get_stock_data cm symbol w = (Inr None, w1)"
    and "fetch_batch_quotes env (batch_fetcher svc) [symbol] w1 = (batch_result, f', w2)"
    and "map_of (successful_quotes batch_result) symbol = Some stock_quote"
    and "refresh_stock_data cm symbol stock_quote True w2 = (Inr success, w3)"
  shows "fst (get_stock_data env cm svc symbol True w) = Inr (Some stock_quote)"
  using assms by (simp add: get_stock_data_def Let_def)

lemma get_stock_data_write_raises:
  assumes "cache_get_stock_data cm symbol w = (Inr None, w1)"
    and "fetch_batch_quotes env (batch_fetcher svc) [symbol] w1 = (batch_result, f', w2)"
    and "map_of (successful_quotes batch_result) symbol = Some stock_quote"
    and "refresh_stock_data cm symbol stock_quote True w2 = (Inl e, w3)"
  shows "fst (get_stock_data env cm svc symbol True w) = Inl e"
  using assms by (simp add: get_stock_data_def Let_def)

text \<open>
  C9. On a cache miss with \<^verbatim>\<open>fetch_if_missing\<close> and a successful single-symbol fetch,
  \<^verbatim>\<open>get_stock_data\<close> returns the fresh quote when the write-through reports its failure
  by returning \<^verbatim>\<open>False\<close>. The call of \<^verbatim>\<open>refresh_stock_data\<close> is not inside a
  \<^verbatim>\<open>try\<close>, unlike the one in \<^verbatim>\<open>_handle_batch_updates\<close>: when the write raises,
  the exception leaves \<^verbatim>\<open>get_stock_data\<close> and the caller gets no quote.
\<close>

theorem cache_write_exception_aborts_read:
  "map_of (successful_quotes (fst (fetch_batch_quotes demo_env demo_fetcher [''500325''] quiet_world))) ''500325''
     = Some quote_rounded \<and>
   fst (get_stock_data demo_env refusing_cache demo_integration ''500325'' True quiet_world) = Inr (Some quote_rounded) \<and>
   fst (get_stock_data demo_env broken_cache demo_integration ''500325'' True quiet_world) = Inl ''Connection refused''"
  by code_simp

section \<open>Properties of the optimized websocket service\<close>

lemma delta_update_type:
  "upd_type (fst (create_delta_update cs S d now now')) \<in> {''delta'', ''heartbeat''} \<and>
   upd_data (fst (create_delta_update cs S d now now')) = None \<and>
   previous_data_cache (snd (create_delta_update cs S d now now')) = (previous_data_cache cs)(S \<mapsto> as_dict d)"
  by (simp add: create_delta_update_def Let_def)

lemma full_update_type:
  "upd_type (fst (create_full_update cs S d now)) = ''full'' \<and>
   upd_data (fst (create_full_update cs S d now)) = Some (as_dict d) \<and>
   previous_data_cache (snd (create_full_update cs S d now)) = (previous_data_cache cs)(S \<mapsto> as_dict d)"
  by (simp add: create_full_update_def Let_def)

lemma compress_keeps_baseline [simp]:
  "previous_data_cache (snd (compress_stock_data wr cs p)) = previous_data_cache cs"
  by (simp add: compress_stock_data_def split: option.splits prod.splits)

lemma emit_fields [simp]:
  "compression_service (emit e m r svc) = compression_service svc"
  "websocket_manager (emit e m r svc) = websocket_manager svc"
  "client_capabilities (emit e m r svc) = client_capabilities svc"
  "batch_config (emit e m r svc) = batch_config svc"
  "pending_batches (emit e m r svc) = pending_batches svc"
  "emitted (emit e m r svc) = emitted svc @ [(e, m, r)]"
  by (simp_all add: emit_def)

lemma flush_batch_fixed [simp]:
  "websocket_manager (flush_batch wr svc c) = websocket_manager svc"
  "client_capabilities (flush_batch wr svc c) = client_capabilities svc"
  "batch_config (flush_batch wr svc c) = batch_config svc"
  "previous_data_cache (compression_service (flush_batch wr svc c)) = previous_data_cache (compression_service svc)"
  by (simp_all add: flush_batch_def Let_def compress_batch_updates_def case_prod_beta split: option.splits)



lemma add_to_batch_fixed [simp]:
  "websocket_manager (add_to_batch wr svc c u) = websocket_manager svc"
  "client_capabilities (add_to_batch wr svc c u) = client_capabilities svc"
  "batch_config (add_to_batch wr svc c u) = batch_config svc"
  "previous_data_cache (compression_service (add_to_batch wr svc c u)) = previous_data_cache (compression_service svc)"
  by (simp_all add: add_to_batch_def Let_def)



lemma send_single_update_fixed [simp]:
  "websocket_manager (send_single_update wr svc c u z) = websocket_manager svc"
  "client_capabilities (send_single_update wr svc c u z) = client_capabilities svc"
  "batch_config (send_single_update wr svc c u z) = batch_config svc"
  "pending_batches (send_single_update wr svc c u z) = pending_batches svc"
  "previous_data_cache (compression_service (send_single_update wr svc c u z)) = previous_data_cache (compression_service svc)"
  by (simp_all add: send_single_update_def Let_def case_prod_beta split: option.splits)




lemma capability_fixed [simp]:
  "capability (svc\<lparr>compression_service := cs\<rparr>) c k = capability svc c k"
  "capability (svc\<lparr>pending_batches := pb\<rparr>) c k = capability svc c k"
  "capability (emit e m r svc) c k = capability svc c k"
  "capability (add_to_batch wr svc c' u) c k = capability svc c k"
  "capability (send_single_update wr svc c' u z) c k = capability svc c k"
  by (simp_all add: capability_def)

lemma pending_of_fixed [simp]:
  "pending_of (svc\<lparr>compression_service := cs\<rparr>) c = pending_of svc c"
  "pending_of (emit e m r svc) c = pending_of svc c"
  by (simp_all add: pending_of_def)

lemma send_update_to_client_fixed [simp]:
  "websocket_manager (send_update_to_client wr svc c S d force now now') = websocket_manager svc"
  "client_capabilities (send_update_to_client wr svc c S d force now now') = client_capabilities svc"
  "batch_config (send_update_to_client wr svc c S d force now now') = batch_config svc"
  "previous_data_cache (compression_service (send_update_to_client wr svc c S d force now now')) =
     (previous_data_cache (compression_service svc))(S \<mapsto> as_dict d)"
  by (simp_all add: send_update_to_client_def Let_def delta_update_type full_update_type)












end
